theory Spec2Isabelle
  imports Main "HOL-Library.Sublist" "HOL-Library.Char_ord" "HOL-Library.List_Lexorder"
begin

section \<open>Text operations of the scanner\<close>

text \<open>
  A Python \<open>str\<close> is a \<open>string\<close> (a list of 8-bit characters): the model covers texts whose
  characters are code points below 256. A file's text is what \<open>read()\<close> returns, that is
  after decoding and after the translation of line ends to the newline character.
\<close>

abbreviation newline :: char where
  "newline \<equiv> CHR 0x0A"

text \<open>\<open>needle in haystack\<close> on strings.\<close>

fun contains :: "string \<Rightarrow> string \<Rightarrow> bool" where
  "contains needle [] = (needle = [])"
| "contains needle (c # cs) = (prefix needle (c # cs) \<or> contains needle cs)"

text \<open>The characters below 256 for which \<open>str.isspace\<close> holds; \<open>str.strip()\<close> removes them
  from both ends.\<close>

definition whitespace :: "char list" where
  "whitespace = [CHR 0x09, CHR 0x0A, CHR 0x0B, CHR 0x0C, CHR 0x0D, CHR 0x1C, CHR 0x1D,
                 CHR 0x1E, CHR 0x1F, CHR 0x20, CHR 0x85, CHR 0xA0]"

definition isspace :: "char \<Rightarrow> bool" where
  "isspace c = (c \<in> set whitespace)"

definition strip :: "string \<Rightarrow> string" where
  "strip s = rev (dropWhile isspace (rev (dropWhile isspace s)))"

text \<open>\<open>content.split('\n')\<close>: the pieces between newlines, without the newlines; never empty.\<close>

fun split_nl :: "string \<Rightarrow> string list" where
  "split_nl [] = [[]]"
| "split_nl (c # cs) =
     (if c = newline then [] # split_nl cs
      else (case split_nl cs of [] \<Rightarrow> [[c]] | l # ls \<Rightarrow> (c # l) # ls))"

text \<open>\<open>f.readlines()\<close>: the lines with their newline kept; a last line without newline is
  a line too; the empty text has no line.\<close>

fun readlines :: "string \<Rightarrow> string list" where
  "readlines [] = []"
| "readlines (c # cs) =
     (if c = newline then [c] # readlines cs
      else (case readlines cs of [] \<Rightarrow> [[c]] | l # ls \<Rightarrow> (c # l) # ls))"

text \<open>\<open>'\n'.join(parts)\<close>.\<close>

fun join_nl :: "string list \<Rightarrow> string" where
  "join_nl [] = []"
| "join_nl [x] = x"
| "join_nl (x # y # ys) = x @ newline # join_nl (y # ys)"

text \<open>\<open>xs[a:b]\<close> for bounds that are not negative (the scanner clips them with \<open>max\<close> and
  \<open>min\<close> before slicing).\<close>

definition slice :: "'a list \<Rightarrow> int \<Rightarrow> int \<Rightarrow> 'a list" where
  "slice xs a b = take (nat (b - a)) (drop (nat a) xs)"

text \<open>\<open>enumerate(xs, start)\<close>.\<close>

fun enumerate_from :: "int \<Rightarrow> 'a list \<Rightarrow> (int \<times> 'a) list" where
  "enumerate_from n [] = []"
| "enumerate_from n (x # xs) = (n, x) # enumerate_from (n + 1) xs"

text \<open>
  \<open>re.search(tag + r'([\d.]+)', content)\<close> for a literal \<open>tag\<close>, returning group 1: the
  leftmost position where the tag stands directly before a digit or a dot, and from there
  the longest run of digits and dots. Below 256 the class \<open>\d\<close> is the ten ASCII digits.
\<close>

definition is_version_char :: "char \<Rightarrow> bool" where
  "is_version_char c = (c \<in> set ''0123456789.'')"

fun re_search_version :: "string \<Rightarrow> string \<Rightarrow> string option" where
  "re_search_version tag [] = None"
| "re_search_version tag (c # cs) =
     (if prefix tag (c # cs) \<and> takeWhile is_version_char (drop (length tag) (c # cs)) \<noteq> []
      then Some (takeWhile is_version_char (drop (length tag) (c # cs)))
      else re_search_version tag cs)"

text \<open>\<open>fnmatch\<close> of a file name against a pattern made of literal characters and \<open>*\<close>,
  as \<open>Path.glob\<close> applies it to each entry of a directory.\<close>

fun fnmatch :: "string \<Rightarrow> string \<Rightarrow> bool" where
  "fnmatch [] name = (name = [])"
| "fnmatch (p # ps) [] = (p = CHR ''*'' \<and> fnmatch ps [])"
| "fnmatch (p # ps) (c # cs) =
     (if p = CHR ''*'' then fnmatch ps (c # cs) \<or> fnmatch (p # ps) cs
      else p = c \<and> fnmatch ps cs)"

section \<open>Data model\<close>

record issue =
  category :: string
  severity :: string
  file_path :: string
  line_number :: int
  issue :: string
  suggestion :: string

record scan_result =
  spring_boot_version :: string
  spring_modulith_version :: string
  testcontainers_version :: string
  issues :: "issue list"

text \<open>One value for every \<open>print\<close> statement of the program, carrying the values the
  statement interpolates. \<open>ErrorReading\<close> is the exception: it stands for the line
  \<open>Error reading {file_path}: {e}\<close> and carries the path of the file relative to the project
  root; the program prints that path joined to the project path, followed by the text of
  the exception, which a file that cannot be read does not carry in this model.\<close>

datatype icon = RedCircle | YellowCircle | InfoSign

datatype out_line =
    ScanningProject string
  | Rule80
  | PomNotFound
  | ScanningPom
  | ShowSpringBoot string
  | ShowSpringModulith string
  | ShowTestcontainers string
  | ScanningJava
  | FoundJavaFiles nat
  | ErrorReading string
  | ScanningProperties
  | ScanningFlyway
  | NoFlywayMigrations
  | BlankLines
  | ReportTitle
  | AllClear
  | SummaryHeader
  | CriticalCount int
  | WarningCount int
  | InfoCount int
  | TotalCount nat
  | GroupHeader icon string nat
  | Dashes80
  | IssueFile string int
  | IssueText string
  | IssueFix string
  | BlankThenRule80
  | NextStepsHeader
  | NextStep nat

text \<open>The state of a run: the scanner's \<open>ScanResult\<close> and what has been printed so far.\<close>

record run_state = scan_result +
  stdout :: "out_line list"

datatype error = ReadError | KeyError | ValueError

definition add_issue ::
  "string \<Rightarrow> string \<Rightarrow> string \<Rightarrow> int \<Rightarrow> string \<Rightarrow> string \<Rightarrow>
   'a scan_result_scheme \<Rightarrow> 'a scan_result_scheme" where
  "add_issue cat sev path line what fix s =
     s\<lparr>issues := issues s @
       [\<lparr>category = cat, severity = sev, file_path = path, line_number = line,
         issue = what, suggestion = fix\<rparr>]\<rparr>"

definition print_line :: "out_line \<Rightarrow> run_state \<Rightarrow> run_state" where
  "print_line x s = s\<lparr>stdout := stdout s @ [x]\<rparr>"

definition initial :: run_state where
  "initial = \<lparr>spring_boot_version = ''Unknown'', spring_modulith_version = ''Unknown'',
              testcontainers_version = ''Unknown'', issues = [], stdout = []\<rparr>"

text \<open>
  The project tree as the scan observes it. A file is either text or cannot be read
  (\<open>open\<close> or \<open>read\<close> raises: no permission, a directory, bytes that do not decode).
  \<open>pom_path\<close> is \<open>str(project_path / "pom.xml")\<close>; \<open>java_files\<close> is the result of
  \<open>rglob("*.java")\<close>, each entry with its path relative to the project root;
  \<open>migration_dir\<close> is \<open>None\<close> when \<open>src/main/resources/db/migration\<close> does not exist, and
  otherwise holds \<open>None\<close> when its \<open>__root\<close> does not exist, or the names of the entries of
  \<open>__root\<close>.
\<close>

datatype file_content = Unreadable | Text string

record project =
  project_path :: string
  pom_path :: string
  pom_xml :: "file_content option"
  java_files :: "(string \<times> file_content) list"
  application_properties :: "file_content option"
  application_yml :: "file_content option"
  migration_dir :: "string list option option"

section \<open>Build-descriptor scanner\<close>

text \<open>The three version fields: each is assigned only when its pattern is found.\<close>

definition extract_versions :: "string \<Rightarrow> 'a scan_result_scheme \<Rightarrow> 'a scan_result_scheme" where
  "extract_versions content s =
     (let s1 = (case re_search_version ''<spring-boot.version>'' content of
                  None \<Rightarrow> s | Some v \<Rightarrow> s\<lparr>spring_boot_version := v\<rparr>);
          s2 = (case re_search_version ''<spring-modulith.version>'' content of
                  None \<Rightarrow> s1 | Some v \<Rightarrow> s1\<lparr>spring_modulith_version := v\<rparr>);
          s3 = (case re_search_version ''<testcontainers.version>'' content of
                  None \<Rightarrow> s2 | Some v \<Rightarrow> s2\<lparr>testcontainers_version := v\<rparr>)
      in s3)"

definition print_versions :: "run_state \<Rightarrow> run_state" where
  "print_versions s =
     print_line (ShowTestcontainers (testcontainers_version s))
       (print_line (ShowSpringModulith (spring_modulith_version s))
         (print_line (ShowSpringBoot (spring_boot_version s)) s))"

definition old_starters :: "(string \<times> string) list" where
  "old_starters =
     [(''spring-boot-starter-web'', ''spring-boot-starter-webmvc''),
      (''spring-boot-starter-aop'', ''spring-boot-starter-aspectj'')]"

definition check_old_starters ::
  "string \<Rightarrow> string list \<Rightarrow> 'a scan_result_scheme \<Rightarrow> 'a scan_result_scheme" where
  "check_old_starters path lines =
     fold (\<lambda>(i, line). fold (\<lambda>(old, new) s.
        if contains (''<artifactId>'' @ old @ ''</artifactId>'') line
        then add_issue ''Spring Boot 4 - Dependencies'' ''CRITICAL'' path i
               (''Old starter: '' @ old)
               (''Change to: '' @ new @
                '' (or use spring-boot-starter-classic for gradual migration)'') s
        else s) old_starters) (enumerate_from 1 lines)"

text \<open>\<open>'\n'.join(lines[max(0, i-3):min(len(lines), i+2)])\<close>, where \<open>i\<close> is the 1-based number
  of the line under test.\<close>

definition context_window :: "string list \<Rightarrow> int \<Rightarrow> string" where
  "context_window lines i =
     join_nl (slice lines (max 0 (i - 3)) (min (int (length lines)) (i + 2)))"

definition check_spring_security_test ::
  "string \<Rightarrow> string list \<Rightarrow> 'a scan_result_scheme \<Rightarrow> 'a scan_result_scheme" where
  "check_spring_security_test path lines =
     fold (\<lambda>(i, line) s.
        if contains ''<artifactId>spring-security-test</artifactId>'' line
        then (if contains ''<groupId>org.springframework.security</groupId>''
                   (context_window lines i)
              then add_issue ''Spring Boot 4 - Dependencies'' ''CRITICAL'' path i
                     ''Old spring-security-test dependency''
                     ''Change to: spring-boot-starter-security-test'' s
              else s)
        else s) (enumerate_from 1 lines)"

definition tc_old_artifacts :: "string list" where
  "tc_old_artifacts = [''junit-jupiter'', ''postgresql'', ''mysql'', ''localstack'', ''mongodb'']"

definition check_testcontainers_artifacts ::
  "string \<Rightarrow> string list \<Rightarrow> 'a scan_result_scheme \<Rightarrow> 'a scan_result_scheme" where
  "check_testcontainers_artifacts path lines =
     fold (\<lambda>(i, line). fold (\<lambda>artifact s.
        if contains (''<artifactId>'' @ artifact @ ''</artifactId>'') line
        then (if contains ''<groupId>org.testcontainers</groupId>'' (context_window lines i)
              then add_issue ''Testcontainers 2.x - Dependencies'' ''WARNING'' path i
                     (''Old Testcontainers artifact: '' @ artifact)
                     (''Change to: testcontainers-'' @ artifact) s
              else s)
        else s) tc_old_artifacts) (enumerate_from 1 lines)"

text \<open>\<open>_scan_pom\<close>: the file is opened and read with no handler around it, so a failing read
  leaves the function as an exception. The last block of the source (\<open>has_retry\<close>) computes a
  flag and does nothing with it.\<close>

definition scan_pom :: "string \<Rightarrow> file_content \<Rightarrow> run_state \<Rightarrow> error + run_state" where
  "scan_pom path f s =
     (case f of
        Unreadable \<Rightarrow> Inl ReadError
      | Text content \<Rightarrow>
          Inr (check_testcontainers_artifacts path (split_nl content)
                (check_spring_security_test path (split_nl content)
                  (check_old_starters path (split_nl content)
                    (print_versions (extract_versions content (print_line ScanningPom s)))))))"

section \<open>Source-file scanner\<close>

definition is_line_comment :: "string \<Rightarrow> bool" where
  "is_line_comment line = prefix ''//'' (strip line)"

definition test_annotation_patterns :: "(string \<times> string) list" where
  "test_annotation_patterns = [(''@MockBean'', ''@MockitoBean''), (''@SpyBean'', ''@MockitoSpyBean'')]"

definition check_test_annotations ::
  "string \<Rightarrow> string list \<Rightarrow> 'a scan_result_scheme \<Rightarrow> 'a scan_result_scheme" where
  "check_test_annotations rel lines =
     fold (\<lambda>(i, line). fold (\<lambda>(old, new) s.
        if contains old line \<and> \<not> is_line_comment line
        then add_issue ''Spring Boot 4 - Test Annotations'' ''CRITICAL'' rel i
               (''Old test annotation: '' @ old) (''Change to: '' @ new) s
        else s) test_annotation_patterns) (enumerate_from 1 lines)"

definition old_imports :: "(string \<times> string) list" where
  "old_imports =
     [(''org.springframework.boot.test.mock.mockito.MockBean'',
       ''org.springframework.boot.test.mock.mockito.MockitoBean''),
      (''org.springframework.boot.test.mock.mockito.SpyBean'',
       ''org.springframework.boot.test.mock.mockito.MockitoSpyBean''),
      (''org.springframework.boot.test.autoconfigure.web.servlet.WebMvcTest'',
       ''org.springframework.boot.webmvc.test.autoconfigure.WebMvcTest''),
      (''org.springframework.boot.autoconfigure.domain.EntityScan'',
       ''org.springframework.boot.persistence.autoconfigure.EntityScan''),
      (''org.springframework.boot.BootstrapRegistry'',
       ''org.springframework.boot.bootstrap.BootstrapRegistry''),
      (''org.springframework.boot.BootstrapContext'',
       ''org.springframework.boot.bootstrap.BootstrapContext'')]"

definition check_old_imports ::
  "string \<Rightarrow> string list \<Rightarrow> 'a scan_result_scheme \<Rightarrow> 'a scan_result_scheme" where
  "check_old_imports rel lines =
     fold (\<lambda>(i, line). fold (\<lambda>(old_import, new_import) s.
        if contains (''import '' @ old_import) line
        then add_issue ''Spring Boot 4 - Package Relocations'' ''CRITICAL'' rel i
               (''Old import: '' @ old_import) (''Change to: '' @ new_import) s
        else s) old_imports) (enumerate_from 1 lines)"

definition tc_old_imports :: "(string \<times> string) list" where
  "tc_old_imports =
     [(''org.testcontainers.containers.PostgreSQLContainer'',
       ''org.testcontainers.postgresql.PostgreSQLContainer''),
      (''org.testcontainers.containers.MySQLContainer'',
       ''org.testcontainers.mysql.MySQLContainer''),
      (''org.testcontainers.containers.MongoDBContainer'',
       ''org.testcontainers.mongodb.MongoDBContainer''),
      (''org.testcontainers.containers.localstack.LocalStackContainer'',
       ''org.testcontainers.localstack.LocalStackContainer'')]"

definition check_tc_old_imports ::
  "string \<Rightarrow> string list \<Rightarrow> 'a scan_result_scheme \<Rightarrow> 'a scan_result_scheme" where
  "check_tc_old_imports rel lines =
     fold (\<lambda>(i, line). fold (\<lambda>(old_import, new_import) s.
        if contains (''import '' @ old_import) line
        then add_issue ''Testcontainers 2.x - Package Changes'' ''CRITICAL'' rel i
               (''Old Testcontainers import: '' @ old_import) (''Change to: '' @ new_import) s
        else s) tc_old_imports) (enumerate_from 1 lines)"

definition check_localstack_service ::
  "string \<Rightarrow> string list \<Rightarrow> string \<Rightarrow> 'a scan_result_scheme \<Rightarrow> 'a scan_result_scheme" where
  "check_localstack_service rel lines content s =
     (if contains ''LocalStackContainer.Service'' content
      then fold (\<lambda>(i, line) s.
             if contains ''LocalStackContainer.Service'' line
             then add_issue ''Testcontainers 2.x - API Changes'' ''CRITICAL'' rel i
                    ''LocalStackContainer.Service enum removed''
                    ''Remove .withServices() - services are now auto-detected'' s
             else s) (enumerate_from 1 lines) s
      else s)"

definition check_resilience ::
  "string \<Rightarrow> string list \<Rightarrow> string \<Rightarrow> 'a scan_result_scheme \<Rightarrow> 'a scan_result_scheme" where
  "check_resilience rel lines content s =
     (if contains ''org.springframework.resilience'' content
      then fold (\<lambda>(i, line) s.
             if contains ''org.springframework.resilience'' line
             then add_issue ''Spring Boot 4 - Retry/Resilience'' ''INFO'' rel i
                    ''Using org.springframework.resilience annotations''
                    ''Ensure AOP support; if using Spring Retry directly, use org.springframework.retry + explicit version'' s
             else s) (enumerate_from 1 lines) s
      else s)"

definition check_retryable ::
  "string \<Rightarrow> string list \<Rightarrow> string \<Rightarrow> 'a scan_result_scheme \<Rightarrow> 'a scan_result_scheme" where
  "check_retryable rel lines content s =
     (if contains ''@Retryable'' content
      then fold (\<lambda>(i, line) s.
             if contains ''@Retryable'' line \<and> \<not> is_line_comment line
             then add_issue ''Spring Boot 4 - Spring Retry'' ''INFO'' rel i
                    ''Using @Retryable''
                    ''Ensure spring-retry dependency with explicit version + spring-boot-starter-aspectj'' s
             else s) (enumerate_from 1 lines) s
      else s)"

definition jackson2_classes :: "(string \<times> string) list" where
  "jackson2_classes =
     [(''Jackson2ObjectMapperBuilderCustomizer'', ''JsonMapperBuilderCustomizer''),
      (''@JsonComponent'', ''@JacksonComponent'')]"

definition check_jackson2 ::
  "string \<Rightarrow> string list \<Rightarrow> 'a scan_result_scheme \<Rightarrow> 'a scan_result_scheme" where
  "check_jackson2 rel lines =
     fold (\<lambda>(i, line). fold (\<lambda>(old_class, new_class) s.
        if contains old_class line \<and> \<not> is_line_comment line
        then add_issue ''Spring Boot 4 - Jackson 3'' ''CRITICAL'' rel i
               (''Old Jackson 2 class: '' @ old_class) (''Change to Jackson 3: '' @ new_class) s
        else s) jackson2_classes) (enumerate_from 1 lines)"

text \<open>The arrow of the last suggestion is the code point U+2192, written here as the three
  bytes of its UTF-8 form.\<close>

definition check_generic_types ::
  "string \<Rightarrow> string list \<Rightarrow> string \<Rightarrow> 'a scan_result_scheme \<Rightarrow> 'a scan_result_scheme" where
  "check_generic_types rel lines content s =
     (if contains ''PostgreSQLContainer<?>'' content \<or> contains ''MySQLContainer<?>'' content
      then fold (\<lambda>(i, line) s.
             if contains ''PostgreSQLContainer<?>'' line \<or> contains ''MySQLContainer<?>'' line
             then add_issue ''Testcontainers 2.x - Generic Types'' ''WARNING'' rel i
                    ''Generic type in Testcontainers container''
                    (''Remove generic type: PostgreSQLContainer<?> '' @
                     [CHR 0xE2, CHR 0x86, CHR 0x92] @ '' PostgreSQLContainer'') s
             else s) (enumerate_from 1 lines) s
      else s)"

definition check_endpoint_override ::
  "string \<Rightarrow> string list \<Rightarrow> string \<Rightarrow> 'a scan_result_scheme \<Rightarrow> 'a scan_result_scheme" where
  "check_endpoint_override rel lines content s =
     (if contains ''getEndpointOverride('' content
      then fold (\<lambda>(i, line) s.
             if contains ''getEndpointOverride('' line \<and> contains ''Service'' line
             then add_issue ''Testcontainers 2.x - LocalStack API'' ''CRITICAL'' rel i
                    ''getEndpointOverride(Service) deprecated''
                    ''Change to: getEndpoint()'' s
             else s) (enumerate_from 1 lines) s
      else s)"

text \<open>\<open>_scan_java_file\<close>: a failing read is caught, reported and the file skipped.\<close>

definition scan_java_file :: "string \<Rightarrow> file_content \<Rightarrow> run_state \<Rightarrow> run_state" where
  "scan_java_file rel f s =
     (case f of
        Unreadable \<Rightarrow> print_line (ErrorReading rel) s
      | Text text \<Rightarrow>
          (let lines = readlines text; content = concat lines in
           check_endpoint_override rel lines content
            (check_generic_types rel lines content
             (check_jackson2 rel lines
              (check_retryable rel lines content
               (check_resilience rel lines content
                (check_localstack_service rel lines content
                 (check_tc_old_imports rel lines
                  (check_old_imports rel lines
                   (check_test_annotations rel lines s))))))))))"

definition scan_java_files :: "project \<Rightarrow> run_state \<Rightarrow> run_state" where
  "scan_java_files P s =
     fold (\<lambda>(rel, f). scan_java_file rel f) (java_files P)
       (print_line (FoundJavaFiles (length (java_files P))) (print_line ScanningJava s))"

section \<open>Configuration-file scanner\<close>

definition old_jackson_props :: "string list" where
  "old_jackson_props = [''spring.jackson.read.'', ''spring.jackson.write.'']"

definition check_jackson_props ::
  "string \<Rightarrow> string list \<Rightarrow> 'a scan_result_scheme \<Rightarrow> 'a scan_result_scheme" where
  "check_jackson_props rel lines =
     fold (\<lambda>(i, line). fold (\<lambda>old_prop s.
        if contains old_prop line \<and> \<not> prefix ''#'' (strip line)
        then add_issue ''Spring Boot 4 - Configuration'' ''WARNING'' rel i
               (''Old Jackson property: '' @ strip line)
               ''Change spring.jackson.* to spring.jackson.json.*'' s
        else s) old_jackson_props) (enumerate_from 1 lines)"

definition check_modulith_jdbc ::
  "string \<Rightarrow> string \<Rightarrow> 'a scan_result_scheme \<Rightarrow> 'a scan_result_scheme" where
  "check_modulith_jdbc rel content s =
     (let has_modulith_jdbc = contains ''spring.modulith.events.jdbc.schema'' content in
      if spring_modulith_version s \<noteq> ''Unknown'' \<and> \<not> has_modulith_jdbc
      then add_issue ''Spring Modulith 2.0 - Configuration'' ''CRITICAL'' rel 0
             ''Missing Spring Modulith event store configuration''
             ''Add: spring.modulith.events.jdbc.schema=events'' s
      else s)"

definition scan_properties_file :: "string \<Rightarrow> file_content \<Rightarrow> run_state \<Rightarrow> run_state" where
  "scan_properties_file rel f s =
     (case f of
        Unreadable \<Rightarrow> print_line (ErrorReading rel) s
      | Text text \<Rightarrow>
          (let lines = readlines text; content = concat lines in
           check_modulith_jdbc rel content (check_jackson_props rel lines s)))"

text \<open>The two well-known paths, each with the file found there (\<open>None\<close>: no such path).\<close>

definition props_paths :: "project \<Rightarrow> (string \<times> file_content option) list" where
  "props_paths P =
     [(''src/main/resources/application.properties'', application_properties P),
      (''src/main/resources/application.yml'', application_yml P)]"

definition scan_properties :: "project \<Rightarrow> run_state \<Rightarrow> run_state" where
  "scan_properties P s =
     fold (\<lambda>(rel, found) s. case found of None \<Rightarrow> s | Some f \<Rightarrow> scan_properties_file rel f s)
       (props_paths P) (print_line ScanningProperties s)"

section \<open>Migration-directory scanner\<close>

definition scan_flyway_migrations :: "project \<Rightarrow> run_state \<Rightarrow> run_state" where
  "scan_flyway_migrations P s0 =
     (let s = print_line ScanningFlyway s0 in
      case migration_dir P of
        None \<Rightarrow> print_line NoFlywayMigrations s
      | Some root_migrations \<Rightarrow>
          (case root_migrations of
             Some entries \<Rightarrow>
               (let events_schema_files = filter (fnmatch ''V0__*events*.sql'') entries in
                if events_schema_files = [] \<and> spring_modulith_version s \<noteq> ''Unknown''
                then add_issue ''Spring Modulith 2.0 - Database'' ''CRITICAL''
                       ''src/main/resources/db/migration/__root/'' 0
                       ''Missing events schema migration''
                       (''Create: V0__create_events_schema.sql with '' @ [CHR 0x27] @
                        ''CREATE SCHEMA events;'' @ [CHR 0x27]) s
                else s)
           | None \<Rightarrow>
               (if spring_modulith_version s \<noteq> ''Unknown''
                then add_issue ''Spring Modulith 2.0 - Database'' ''CRITICAL''
                       ''src/main/resources/db/migration/'' 0
                       ''Missing __root directory for events schema migration''
                       ''Create: __root/V0__create_events_schema.sql'' s
                else s)))"

section \<open>Scan orchestrator\<close>

definition scan :: "project \<Rightarrow> error + run_state" where
  "scan P =
     (let s = print_line Rule80 (print_line (ScanningProject (project_path P)) initial) in
      case (case pom_xml P of
              Some f \<Rightarrow> scan_pom (pom_path P) f s
            | None \<Rightarrow> Inr (print_line PomNotFound s)) of
        Inl e \<Rightarrow> Inl e
      | Inr s1 \<Rightarrow> Inr (scan_flyway_migrations P (scan_properties P (scan_java_files P s1))))"

section \<open>Report renderer\<close>

text \<open>The dictionary \<open>issues_by_category\<close>, in insertion order.\<close>

definition group_key :: "issue \<Rightarrow> string" where
  "group_key i = category i @ '' - '' @ severity i"

fun dict_append :: "string \<Rightarrow> issue \<Rightarrow> (string \<times> issue list) list \<Rightarrow> (string \<times> issue list) list" where
  "dict_append key x [] = [(key, [x])]"
| "dict_append key x ((k, v) # d) =
     (if k = key then (k, v @ [x]) # d else (k, v) # dict_append key x d)"

definition issues_by_category :: "issue list \<Rightarrow> (string \<times> issue list) list" where
  "issues_by_category xs = fold (\<lambda>i d. dict_append (group_key i) i d) xs []"

text \<open>\<open>s.rsplit(sep, 1)\<close>: the split at the last occurrence of \<open>sep\<close>, found as the first
  occurrence of the reversed separator in the reversed string.\<close>

fun split_first :: "string \<Rightarrow> string \<Rightarrow> (string \<times> string) option" where
  "split_first sep [] = (if sep = [] then Some ([], []) else None)"
| "split_first sep (c # cs) =
     (if prefix sep (c # cs) then Some ([], drop (length sep) (c # cs))
      else map_option (\<lambda>(a, b). (c # a, b)) (split_first sep cs))"

definition rsplit1 :: "string \<Rightarrow> string \<Rightarrow> string list" where
  "rsplit1 sep s =
     (case split_first (rev sep) (rev s) of
        None \<Rightarrow> [s]
      | Some (a, b) \<Rightarrow> [rev b, rev a])"

definition severity_icon :: "string \<Rightarrow> icon option" where
  "severity_icon =
     map_of [(''CRITICAL'', RedCircle), (''WARNING'', YellowCircle), (''INFO'', InfoSign)]"

definition issue_lines :: "issue \<Rightarrow> out_line list" where
  "issue_lines i =
     [IssueFile (file_path i) (line_number i), IssueText (issue i), IssueFix (suggestion i)]"

text \<open>One pass of the loop over the sorted keys; unpacking the split into two names
  raises unless it has two parts, and the icon lookup raises on an unknown severity.\<close>

definition print_group :: "(string \<times> issue list) list \<Rightarrow> string \<Rightarrow> error + out_line list" where
  "print_group d key =
     (case map_of d key of
        None \<Rightarrow> Inl KeyError
      | Some grp \<Rightarrow>
          (case rsplit1 '' - '' key of
             [cat, sev] \<Rightarrow>
               (case severity_icon sev of
                  None \<Rightarrow> Inl KeyError
                | Some ic \<Rightarrow>
                    Inr ([GroupHeader ic cat (length grp), Dashes80] @ concat (map issue_lines grp)))
           | _ \<Rightarrow> Inl ValueError))"

fun print_groups :: "(string \<times> issue list) list \<Rightarrow> string list \<Rightarrow> error + out_line list" where
  "print_groups d [] = Inr []"
| "print_groups d (k # ks) =
     (case print_group d k of
        Inl e \<Rightarrow> Inl e
      | Inr out \<Rightarrow> (case print_groups d ks of Inl e \<Rightarrow> Inl e | Inr rest \<Rightarrow> Inr (out @ rest)))"

definition count_severity :: "string \<Rightarrow> issue list \<Rightarrow> int" where
  "count_severity sev xs = sum_list (map (\<lambda>i. 1) (filter (\<lambda>i. severity i = sev) xs))"

definition report_head :: "out_line list" where
  "report_head = [BlankLines, Rule80, ReportTitle, Rule80]"

definition report_foot :: "out_line list" where
  "report_foot = [BlankThenRule80, NextStepsHeader, NextStep 1, NextStep 2, NextStep 3,
                  NextStep 4, BlankThenRule80]"

text \<open>\<open>print_report\<close>: what it prints for the accumulated issues, or the exception that
  ends it.\<close>

definition print_report :: "issue list \<Rightarrow> error + out_line list" where
  "print_report xs =
     (let d = issues_by_category xs in
      if xs = [] then Inr (report_head @ [AllClear])
      else (case print_groups d (sort (map fst d)) of
              Inl e \<Rightarrow> Inl e
            | Inr groups \<Rightarrow>
                Inr (report_head @
                     [SummaryHeader,
                      CriticalCount (count_severity ''CRITICAL'' xs),
                      WarningCount (count_severity ''WARNING'' xs),
                      InfoCount (count_severity ''INFO'' xs),
                      TotalCount (length xs)] @
                     groups @ report_foot)))"

section \<open>Notions used in the statements\<close>

definition versions_of :: "'a scan_result_scheme \<Rightarrow> string \<times> string \<times> string" where
  "versions_of s = (spring_boot_version s, spring_modulith_version s, testcontainers_version s)"

text \<open>The issues of a whole scan, or the exception that ended it.\<close>

definition scan_issues :: "project \<Rightarrow> error + issue list" where
  "scan_issues P = map_sum id issues (scan P)"

definition scan_versions :: "project \<Rightarrow> error + string \<times> string \<times> string" where
  "scan_versions P = map_sum id versions_of (scan P)"

text \<open>The three version tags, each with the field it is stored in.\<close>

definition version_fields :: "(string \<times> (run_state \<Rightarrow> string)) list" where
  "version_fields =
     [(''<spring-boot.version>'', spring_boot_version),
      (''<spring-modulith.version>'', spring_modulith_version),
      (''<testcontainers.version>'', testcontainers_version)]"

text \<open>At position \<open>k\<close> of the content (counted from 0) the tag stands directly before a digit
  or a dot: the places where the version pattern matches.\<close>

definition tag_before_version :: "string \<Rightarrow> string \<Rightarrow> nat \<Rightarrow> bool" where
  "tag_before_version tag content k =
     (prefix tag (drop k content) \<and> k + length tag < length content \<and>
      is_version_char (content ! (k + length tag)))"

text \<open>The join of the lines from \<open>before\<close> lines before line \<open>i\<close> through \<open>after\<close> lines after
  it, lines counted from 1 and the range cut at both ends of the file.\<close>

definition lines_around :: "nat \<Rightarrow> nat \<Rightarrow> string list \<Rightarrow> int \<Rightarrow> string" where
  "lines_around before after lines i =
     join_nl (map (\<lambda>j. lines ! nat (j - 1))
       [max 1 (i - int before) .. min (int (length lines)) (i + int after)])"

definition valid_severity :: "string \<Rightarrow> bool" where
  "valid_severity sev = (sev \<in> set [''CRITICAL'', ''WARNING'', ''INFO''])"

text \<open>The report as the specification describes it: summary counts per severity, then one
  section for every (category, severity) pair that occurs, holding the issues of that pair
  in discovery order, the sections in the order of their key strings.\<close>

definition icon_of :: "string \<Rightarrow> icon" where
  "icon_of sev =
     (if sev = ''CRITICAL'' then RedCircle else if sev = ''WARNING'' then YellowCircle else InfoSign)"

definition pair_of :: "issue \<Rightarrow> string \<times> string" where
  "pair_of i = (category i, severity i)"

definition pair_key :: "string \<times> string \<Rightarrow> string" where
  "pair_key p = fst p @ '' - '' @ snd p"

definition group_section :: "issue list \<Rightarrow> string \<times> string \<Rightarrow> out_line list" where
  "group_section xs p =
     [GroupHeader (icon_of (snd p)) (fst p) (length (filter (\<lambda>i. pair_of i = p) xs)), Dashes80] @
     concat (map issue_lines (filter (\<lambda>i. pair_of i = p) xs))"

definition report_by_pairs :: "issue list \<Rightarrow> out_line list" where
  "report_by_pairs xs =
     report_head @
     [SummaryHeader,
      CriticalCount (int (length (filter (\<lambda>i. severity i = ''CRITICAL'') xs))),
      WarningCount (int (length (filter (\<lambda>i. severity i = ''WARNING'') xs))),
      InfoCount (int (length (filter (\<lambda>i. severity i = ''INFO'') xs))),
      TotalCount (length xs)] @
     concat (map (group_section xs) (sort_key pair_key (remdups (map pair_of xs)))) @
     report_foot"






section \<open>Scanners as issue emitters\<close>

text \<open>A step of the scan emits issues: run from any state whose modularity-framework version
  is \<open>v\<close>, it appends a fixed list of issues, all satisfying \<open>Q\<close>, prints, and changes
  nothing else. \<open>emitted v f\<close> is that list.\<close>

definition emits :: "string \<Rightarrow> (issue \<Rightarrow> bool) \<Rightarrow> (run_state \<Rightarrow> run_state) \<Rightarrow> bool" where
  "emits v Q f =
     (\<exists>new out. (\<forall>i \<in> set new. Q i) \<and>
        (\<forall>s. spring_modulith_version s = v \<longrightarrow>
               f s = s\<lparr>issues := issues s @ new, stdout := stdout s @ out\<rparr>))"

definition emitted :: "string \<Rightarrow> (run_state \<Rightarrow> run_state) \<Rightarrow> issue list" where
  "emitted v f = issues (f (initial\<lparr>spring_modulith_version := v\<rparr>))"

text \<open>The categories each scanner reports under.\<close>

definition pom_categories :: "string list" where
  "pom_categories = [''Spring Boot 4 - Dependencies'', ''Testcontainers 2.x - Dependencies'']"

definition java_categories :: "string list" where
  "java_categories =
     [''Spring Boot 4 - Test Annotations'', ''Spring Boot 4 - Package Relocations'',
      ''Testcontainers 2.x - Package Changes'', ''Testcontainers 2.x - API Changes'',
      ''Spring Boot 4 - Retry/Resilience'', ''Spring Boot 4 - Spring Retry'',
      ''Spring Boot 4 - Jackson 3'', ''Testcontainers 2.x - Generic Types'',
      ''Testcontainers 2.x - LocalStack API'']"

text \<open>The outcome of the build-descriptor scan, as functions of the project: the value a
  version tag leaves in its field, and the issues of the three dependency checks.\<close>

definition detected :: "string \<Rightarrow> string \<Rightarrow> string" where
  "detected tag content =
     (case re_search_version tag content of None \<Rightarrow> ''Unknown'' | Some v \<Rightarrow> v)"

definition pom_versions :: "project \<Rightarrow> string \<times> string \<times> string" where
  "pom_versions P =
     (case pom_xml P of
        Some (Text content) \<Rightarrow>
          (detected ''<spring-boot.version>'' content,
           detected ''<spring-modulith.version>'' content,
           detected ''<testcontainers.version>'' content)
      | _ \<Rightarrow> (''Unknown'', ''Unknown'', ''Unknown''))"

definition pom_checks :: "string \<Rightarrow> string \<Rightarrow> run_state \<Rightarrow> run_state" where
  "pom_checks path content =
     check_testcontainers_artifacts path (split_nl content) \<circ>
     check_spring_security_test path (split_nl content) \<circ>
     check_old_starters path (split_nl content)"

definition pom_issues :: "project \<Rightarrow> issue list" where
  "pom_issues P =
     (case pom_xml P of
        Some (Text content) \<Rightarrow>
          emitted (detected ''<spring-modulith.version>'' content) (pom_checks (pom_path P) content)
      | _ \<Rightarrow> [])"

definition props_categories :: "string list" where
  "props_categories = [''Spring Boot 4 - Configuration'', ''Spring Modulith 2.0 - Configuration'']"

text \<open>The three file-level issues about the modularity framework, as the scanners build
  them.\<close>

definition modulith_config_issue :: "string \<Rightarrow> issue" where
  "modulith_config_issue rel =
     \<lparr>category = ''Spring Modulith 2.0 - Configuration'', severity = ''CRITICAL'',
      file_path = rel, line_number = 0,
      issue = ''Missing Spring Modulith event store configuration'',
      suggestion = ''Add: spring.modulith.events.jdbc.schema=events''\<rparr>"

definition missing_schema_issue :: issue where
  "missing_schema_issue =
     \<lparr>category = ''Spring Modulith 2.0 - Database'', severity = ''CRITICAL'',
      file_path = ''src/main/resources/db/migration/__root/'', line_number = 0,
      issue = ''Missing events schema migration'',
      suggestion = ''Create: V0__create_events_schema.sql with '' @ [CHR 0x27] @
                   ''CREATE SCHEMA events;'' @ [CHR 0x27]\<rparr>"

definition missing_root_issue :: issue where
  "missing_root_issue =
     \<lparr>category = ''Spring Modulith 2.0 - Database'', severity = ''CRITICAL'',
      file_path = ''src/main/resources/db/migration/'', line_number = 0,
      issue = ''Missing __root directory for events schema migration'',
      suggestion = ''Create: __root/V0__create_events_schema.sql''\<rparr>"

definition flyway_issues :: "string \<Rightarrow> project \<Rightarrow> issue list" where
  "flyway_issues v P =
     (case migration_dir P of
        None \<Rightarrow> []
      | Some None \<Rightarrow> (if v \<noteq> ''Unknown'' then [missing_root_issue] else [])
      | Some (Some entries) \<Rightarrow>
          (if (\<forall>n \<in> set entries. \<not> fnmatch ''V0__*events*.sql'' n) \<and> v \<noteq> ''Unknown''
           then [missing_schema_issue] else []))"

text \<open>A small project for concrete runs: a build descriptor that declares the
  modularity framework, and nothing else.\<close>

definition demo :: project where
  "demo =
     \<lparr>project_path = ''demo'', pom_path = ''demo/pom.xml'',
      pom_xml = Some (Text ''<spring-modulith.version>2.0.0</spring-modulith.version>''),
      java_files = [], application_properties = None, application_yml = None,
      migration_dir = None\<rparr>"

text \<open>The checks of the source-file scanner that follow the annotation check.\<close>

definition other_java_checks :: "string \<Rightarrow> string \<Rightarrow> run_state \<Rightarrow> run_state" where
  "other_java_checks rel t =
     check_endpoint_override rel (readlines t) (concat (readlines t)) \<circ>
     check_generic_types rel (readlines t) (concat (readlines t)) \<circ>
     check_jackson2 rel (readlines t) \<circ>
     check_retryable rel (readlines t) (concat (readlines t)) \<circ>
     check_resilience rel (readlines t) (concat (readlines t)) \<circ>
     check_localstack_service rel (readlines t) (concat (readlines t)) \<circ>
     check_tc_old_imports rel (readlines t) \<circ>
     check_old_imports rel (readlines t)"

text \<open>A step that emits the same issues from every state.\<close>

definition emits_always :: "(issue \<Rightarrow> bool) \<Rightarrow> (run_state \<Rightarrow> run_state) \<Rightarrow> bool" where
  "emits_always Q f =
     (\<exists>new out. (\<forall>i \<in> set new. Q i) \<and>
        (\<forall>s. f s = s\<lparr>issues := issues s @ new, stdout := stdout s @ out\<rparr>))"

section \<open>Composing emitters\<close>

lemma issues_add_issue [simp]:
  "issues (add_issue c sv p l w f s) = issues s @ [\<lparr>category = c, severity = sv, file_path = p, line_number = l, issue = w, suggestion = f\<rparr>]"
  by (simp add: add_issue_def)

lemma emits_mono: "emits v Q f \<Longrightarrow> (\<And>i. Q i \<Longrightarrow> R i) \<Longrightarrow> emits v R f"
  unfolding emits_def by blast

lemma emits_id: "emits v Q (\<lambda>s. s)"
  unfolding emits_def by (rule exI [of _ "[]"], rule exI [of _ "[]"]) simp

lemma emits_print: "emits v Q (print_line x)"
  unfolding emits_def print_line_def by (rule exI [of _ "[]"], rule exI [of _ "[x]"]) simp

lemma emits_add:
  "Q \<lparr>category = c, severity = sv, file_path = p, line_number = l, issue = w, suggestion = f\<rparr>
   \<Longrightarrow> emits v Q (add_issue c sv p l w f)"
  unfolding emits_def add_issue_def
  by (rule exI [of _ "[\<lparr>category = c, severity = sv, file_path = p, line_number = l, issue = w, suggestion = f\<rparr>]"],
      rule exI [of _ "[]"]) simp

lemma emits_comp:
  assumes "emits v Q f" "emits v Q g"
  shows "emits v Q (\<lambda>s. g (f s))"
proof -
  from assms(1) obtain n1 o1 where
    1: "\<forall>i\<in>set n1. Q i" "\<And>s. spring_modulith_version s = v \<Longrightarrow> f s = s\<lparr>issues := issues s @ n1, stdout := stdout s @ o1\<rparr>"
    unfolding emits_def by blast
  from assms(2) obtain n2 o2 where
    2: "\<forall>i\<in>set n2. Q i" "\<And>s. spring_modulith_version s = v \<Longrightarrow> g s = s\<lparr>issues := issues s @ n2, stdout := stdout s @ o2\<rparr>"
    unfolding emits_def by blast
  show ?thesis unfolding emits_def
  proof (intro exI conjI allI impI)
    show "\<forall>i\<in>set (n1 @ n2). Q i" using 1(1) 2(1) by auto
  next
    fix s :: run_state assume v: "spring_modulith_version s = v"
    show "g (f s) = s\<lparr>issues := issues s @ (n1 @ n2), stdout := stdout s @ (o1 @ o2)\<rparr>"
      using v by (simp add: 1(2) 2(2))
  qed
qed

lemma emits_if: "(b \<Longrightarrow> emits v Q f) \<Longrightarrow> (\<not> b \<Longrightarrow> emits v Q g) \<Longrightarrow> emits v Q (\<lambda>s. if b then f s else g s)"
  by (cases b) simp_all

lemma emits_fold:
  assumes "\<And>x. x \<in> set xs \<Longrightarrow> emits v Q (body x)"
  shows "emits v Q (fold body xs)"
  using assms
proof (induction xs)
  case Nil
  show ?case using emits_id [of v Q] by (simp add: id_def)
next
  case (Cons x xs)
  have "emits v Q (\<lambda>s. fold body xs (body x s))"
    by (rule emits_comp) (simp_all add: Cons)
  then show ?case by (simp add: comp_def)
qed

lemma emits_prod: "(\<And>a b. emits v Q (f a b)) \<Longrightarrow> emits v Q (case x of (a, b) \<Rightarrow> f a b)"
  by (cases x) simp

lemma emitsD:
  assumes "emits v Q f" "spring_modulith_version s = v"
  shows "issues (f s) = issues s @ emitted v f"
    and "versions_of (f s) = versions_of s"
    and "\<forall>i\<in>set (emitted v f). Q i"
proof -
  from assms(1) obtain new out where
    n: "\<forall>i\<in>set new. Q i" "\<And>s. spring_modulith_version s = v \<Longrightarrow> f s = s\<lparr>issues := issues s @ new, stdout := stdout s @ out\<rparr>"
    unfolding emits_def by blast
  have e: "emitted v f = new" unfolding emitted_def by (subst n(2)) (simp_all add: initial_def)
  show "issues (f s) = issues s @ emitted v f" using assms(2) by (simp add: e n(2))
  show "versions_of (f s) = versions_of s" using assms(2) by (simp add: n(2) versions_of_def)
  show "\<forall>i\<in>set (emitted v f). Q i" using e n(1) by simp
qed

section \<open>Every check is an emitter\<close>

lemma emitted_comp:
  assumes "emits v Q f" "emits v Q g"
  shows "emitted v (\<lambda>s. g (f s)) = emitted v f @ emitted v g"
proof -
  let ?s = "initial\<lparr>spring_modulith_version := v\<rparr>"
  have v: "spring_modulith_version ?s = v" by simp
  have "versions_of (f ?s) = versions_of ?s" by (rule emitsD(2) [OF assms(1) v])
  then have vf: "spring_modulith_version (f ?s) = v" by (simp add: versions_of_def)
  have "issues (g (f ?s)) = issues (f ?s) @ emitted v g" by (rule emitsD(1) [OF assms(2) vf])
  also have "issues (f ?s) = issues ?s @ emitted v f" by (rule emitsD(1) [OF assms(1) v])
  finally show ?thesis by (simp add: emitted_def initial_def)
qed

lemma emitted_id: "emitted v (\<lambda>s. s) = []"
  by (simp add: emitted_def initial_def)

lemma emitted_fold:
  assumes "\<And>x. x \<in> set xs \<Longrightarrow> emits v Q (body x)"
  shows "emitted v (fold body xs) = concat (map (\<lambda>x. emitted v (body x)) xs)"
  using assms
proof (induction xs)
  case Nil
  show ?case using emitted_id [of v] by (simp add: id_def)
next
  case (Cons x xs)
  have "emitted v (\<lambda>s. fold body xs (body x s)) = emitted v (body x) @ emitted v (fold body xs)"
    by (rule emitted_comp [where Q = Q]) (simp_all add: Cons emits_fold)
  then show ?case using Cons by (simp add: comp_def)
qed

lemma emits_check_old_starters:
  "emits v (\<lambda>i. file_path i = path \<and> category i = ''Spring Boot 4 - Dependencies'' \<and> severity i = ''CRITICAL'')
     (check_old_starters path lines)"
  unfolding check_old_starters_def
  by (intro emits_fold emits_prod emits_if emits_add emits_id) simp

lemma emits_check_spring_security_test:
  "emits v (\<lambda>i. file_path i = path \<and> category i = ''Spring Boot 4 - Dependencies'' \<and> severity i = ''CRITICAL'')
     (check_spring_security_test path lines)"
  unfolding check_spring_security_test_def
  by (intro emits_fold emits_prod emits_if emits_add emits_id) simp

lemma emits_check_testcontainers_artifacts:
  "emits v (\<lambda>i. file_path i = path \<and> category i = ''Testcontainers 2.x - Dependencies'' \<and> severity i = ''WARNING'')
     (check_testcontainers_artifacts path lines)"
  unfolding check_testcontainers_artifacts_def
  by (intro emits_fold emits_prod emits_if emits_add emits_id) simp

lemma emits_check_test_annotations:
  "emits v (\<lambda>i. file_path i = rel \<and> category i = ''Spring Boot 4 - Test Annotations'' \<and> severity i = ''CRITICAL'')
     (check_test_annotations rel lines)"
  unfolding check_test_annotations_def
  by (intro emits_fold emits_prod emits_if emits_add emits_id) simp

lemma emits_check_old_imports:
  "emits v (\<lambda>i. file_path i = rel \<and> category i = ''Spring Boot 4 - Package Relocations'' \<and> severity i = ''CRITICAL'')
     (check_old_imports rel lines)"
  unfolding check_old_imports_def
  by (intro emits_fold emits_prod emits_if emits_add emits_id) simp

lemma emits_check_tc_old_imports:
  "emits v (\<lambda>i. file_path i = rel \<and> category i = ''Testcontainers 2.x - Package Changes'' \<and> severity i = ''CRITICAL'')
     (check_tc_old_imports rel lines)"
  unfolding check_tc_old_imports_def
  by (intro emits_fold emits_prod emits_if emits_add emits_id) simp

lemma emits_check_localstack_service:
  "emits v (\<lambda>i. file_path i = rel \<and> category i = ''Testcontainers 2.x - API Changes'' \<and> severity i = ''CRITICAL'')
     (check_localstack_service rel lines content)"
  unfolding check_localstack_service_def
  by (intro emits_fold emits_prod emits_if emits_add emits_id) simp

lemma emits_check_resilience:
  "emits v (\<lambda>i. file_path i = rel \<and> category i = ''Spring Boot 4 - Retry/Resilience'' \<and> severity i = ''INFO'')
     (check_resilience rel lines content)"
  unfolding check_resilience_def
  by (intro emits_fold emits_prod emits_if emits_add emits_id) simp

lemma emits_check_retryable:
  "emits v (\<lambda>i. file_path i = rel \<and> category i = ''Spring Boot 4 - Spring Retry'' \<and> severity i = ''INFO'')
     (check_retryable rel lines content)"
  unfolding check_retryable_def
  by (intro emits_fold emits_prod emits_if emits_add emits_id) simp

lemma emits_check_jackson2:
  "emits v (\<lambda>i. file_path i = rel \<and> category i = ''Spring Boot 4 - Jackson 3'' \<and> severity i = ''CRITICAL'')
     (check_jackson2 rel lines)"
  unfolding check_jackson2_def
  by (intro emits_fold emits_prod emits_if emits_add emits_id) simp

lemma emits_check_generic_types:
  "emits v (\<lambda>i. file_path i = rel \<and> category i = ''Testcontainers 2.x - Generic Types'' \<and> severity i = ''WARNING'')
     (check_generic_types rel lines content)"
  unfolding check_generic_types_def
  by (intro emits_fold emits_prod emits_if emits_add emits_id) simp

lemma emits_check_endpoint_override:
  "emits v (\<lambda>i. file_path i = rel \<and> category i = ''Testcontainers 2.x - LocalStack API'' \<and> severity i = ''CRITICAL'')
     (check_endpoint_override rel lines content)"
  unfolding check_endpoint_override_def
  by (intro emits_fold emits_prod emits_if emits_add emits_id) simp

lemma emits_check_jackson_props:
  "emits v (\<lambda>i. file_path i = rel \<and> category i = ''Spring Boot 4 - Configuration'' \<and> severity i = ''WARNING'')
     (check_jackson_props rel lines)"
  unfolding check_jackson_props_def
  by (intro emits_fold emits_prod emits_if emits_add emits_id) simp

lemma emits_comp': "emits v Q f \<Longrightarrow> emits v Q g \<Longrightarrow> emits v Q (g \<circ> f)"
  using emits_comp [of v Q f g] by (simp add: comp_def)

lemma emitted_comp': "emits v Q f \<Longrightarrow> emits v Q g \<Longrightarrow> emitted v (g \<circ> f) = emitted v f @ emitted v g"
  using emitted_comp [of v Q f g] by (simp add: comp_def)

lemma valid_severity_simps [simp]:
  "valid_severity ''CRITICAL''" "valid_severity ''WARNING''" "valid_severity ''INFO''"
  by (simp_all add: valid_severity_def)

lemma java_checks_as_comp:
  "scan_java_file rel (Text t) =
     check_endpoint_override rel (readlines t) (concat (readlines t)) \<circ>
     check_generic_types rel (readlines t) (concat (readlines t)) \<circ>
     check_jackson2 rel (readlines t) \<circ>
     check_retryable rel (readlines t) (concat (readlines t)) \<circ>
     check_resilience rel (readlines t) (concat (readlines t)) \<circ>
     check_localstack_service rel (readlines t) (concat (readlines t)) \<circ>
     check_tc_old_imports rel (readlines t) \<circ>
     check_old_imports rel (readlines t) \<circ>
     check_test_annotations rel (readlines t)"
  by (simp add: fun_eq_iff scan_java_file_def Let_def)

lemma emits_scan_java_file:
  "emits v (\<lambda>i. file_path i = rel \<and> category i \<in> set java_categories \<and> valid_severity (severity i))
     (scan_java_file rel f)"
proof (cases f)
  case Unreadable
  then have "scan_java_file rel f = print_line (ErrorReading rel)"
    by (simp add: fun_eq_iff scan_java_file_def)
  then show ?thesis by (simp add: emits_print)
next
  case (Text t)
  show ?thesis unfolding Text java_checks_as_comp
    apply (intro emits_comp')
    apply (rule emits_mono [OF emits_check_test_annotations], simp add: java_categories_def)
    apply (rule emits_mono [OF emits_check_old_imports], simp add: java_categories_def)
    apply (rule emits_mono [OF emits_check_tc_old_imports], simp add: java_categories_def)
    apply (rule emits_mono [OF emits_check_localstack_service], simp add: java_categories_def)
    apply (rule emits_mono [OF emits_check_resilience], simp add: java_categories_def)
    apply (rule emits_mono [OF emits_check_retryable], simp add: java_categories_def)
    apply (rule emits_mono [OF emits_check_jackson2], simp add: java_categories_def)
    apply (rule emits_mono [OF emits_check_generic_types], simp add: java_categories_def)
    apply (rule emits_mono [OF emits_check_endpoint_override], simp add: java_categories_def)
    done
qed

lemma emits_scan_java_files:
  "emits v (\<lambda>i. category i \<in> set java_categories \<and> valid_severity (severity i)) (scan_java_files P)"
proof -
  have eq: "scan_java_files P =
      fold (\<lambda>(rel, f). scan_java_file rel f) (java_files P) \<circ>
      print_line (FoundJavaFiles (length (java_files P))) \<circ> print_line ScanningJava"
    by (simp add: fun_eq_iff scan_java_files_def)
  show ?thesis unfolding eq
    by (intro emits_comp' emits_print emits_fold emits_prod emits_mono [OF emits_scan_java_file]) simp
qed

lemma emitted_print: "emitted v (print_line x) = []"
  by (simp add: emitted_def print_line_def initial_def)


lemma check_modulith_jdbc_eq:
  fixes s :: run_state
  assumes "spring_modulith_version s = v"
  shows "check_modulith_jdbc rel content s =
     s\<lparr>issues := issues s @
          (if v \<noteq> ''Unknown'' \<and> \<not> contains ''spring.modulith.events.jdbc.schema'' content
           then [modulith_config_issue rel] else []),
       stdout := stdout s @ []\<rparr>"
  using assms by (simp add: check_modulith_jdbc_def add_issue_def modulith_config_issue_def)

lemma emits_check_modulith_jdbc:
  "emits v (\<lambda>i. file_path i = rel \<and> category i = ''Spring Modulith 2.0 - Configuration'' \<and>
               severity i = ''CRITICAL'')
     (check_modulith_jdbc rel content)"
  unfolding emits_def
  by (intro exI conjI allI impI, rule_tac [2] check_modulith_jdbc_eq)
     (simp_all add: modulith_config_issue_def)

lemma emitted_check_modulith_jdbc:
  "emitted v (check_modulith_jdbc rel content) =
     (if v \<noteq> ''Unknown'' \<and> \<not> contains ''spring.modulith.events.jdbc.schema'' content
      then [modulith_config_issue rel] else [])"
  unfolding emitted_def by (subst check_modulith_jdbc_eq [where v = v]) (simp_all add: initial_def)

lemma props_checks_as_comp:
  "scan_properties_file rel (Text t) =
     check_modulith_jdbc rel (concat (readlines t)) \<circ> check_jackson_props rel (readlines t)"
  by (simp add: fun_eq_iff scan_properties_file_def Let_def)

lemma emits_scan_properties_file:
  "emits v (\<lambda>i. file_path i = rel \<and> category i \<in> set props_categories \<and> valid_severity (severity i))
     (scan_properties_file rel f)"
proof (cases f)
  case Unreadable
  then have "scan_properties_file rel f = print_line (ErrorReading rel)"
    by (simp add: fun_eq_iff scan_properties_file_def)
  then show ?thesis by (simp add: emits_print)
next
  case (Text t)
  show ?thesis unfolding Text props_checks_as_comp
    apply (intro emits_comp')
    apply (rule emits_mono [OF emits_check_jackson_props], simp add: props_categories_def)
    apply (rule emits_mono [OF emits_check_modulith_jdbc], simp add: props_categories_def)
    done
qed

lemma emitted_scan_properties_file:
  "emitted v (scan_properties_file rel f) =
     (case f of
        Unreadable \<Rightarrow> []
      | Text t \<Rightarrow>
          emitted v (check_jackson_props rel (readlines t)) @
          (if v \<noteq> ''Unknown'' \<and>
              \<not> contains ''spring.modulith.events.jdbc.schema'' (concat (readlines t))
           then [modulith_config_issue rel] else []))"
proof (cases f)
  case Unreadable
  then have "scan_properties_file rel f = print_line (ErrorReading rel)"
    by (simp add: fun_eq_iff scan_properties_file_def)
  then show ?thesis using Unreadable by (simp add: emitted_print)
next
  case (Text t)
  let ?Q = "\<lambda>i. file_path i = rel \<and> category i \<in> set props_categories"
  have "emitted v (scan_properties_file rel (Text t)) =
      emitted v (check_jackson_props rel (readlines t)) @
      emitted v (check_modulith_jdbc rel (concat (readlines t)))"
    unfolding props_checks_as_comp
    apply (rule emitted_comp' [where Q = ?Q])
    apply (rule emits_mono [OF emits_check_jackson_props], simp add: props_categories_def)
    apply (rule emits_mono [OF emits_check_modulith_jdbc], simp add: props_categories_def)
    done
  then show ?thesis using Text by (simp add: emitted_check_modulith_jdbc)
qed

lemma emits_props_body:
  "emits v (\<lambda>i. category i \<in> set props_categories \<and> valid_severity (severity i))
     (case x of (rel, found) \<Rightarrow> \<lambda>s. case found of None \<Rightarrow> s | Some f \<Rightarrow> scan_properties_file rel f s)"
proof (cases x)
  case (Pair rel found)
  show ?thesis
  proof (cases found)
    case None
    then show ?thesis using Pair by (simp add: emits_id)
  next
    case (Some f)
    then show ?thesis using Pair
      by (simp add: emits_mono [OF emits_scan_properties_file])
  qed
qed

lemma emitted_props_body:
  "emitted v (case x of (rel, found) \<Rightarrow> \<lambda>s. case found of None \<Rightarrow> s | Some f \<Rightarrow> scan_properties_file rel f s) =
     (case x of (rel, found) \<Rightarrow> case found of None \<Rightarrow> [] | Some f \<Rightarrow> emitted v (scan_properties_file rel f))"
  by (cases x) (simp add: emitted_id split: option.split)

lemma scan_properties_as_comp:
  "scan_properties P =
     fold (\<lambda>(rel, found) s. case found of None \<Rightarrow> s | Some f \<Rightarrow> scan_properties_file rel f s)
       (props_paths P) \<circ> print_line ScanningProperties"
  by (simp add: fun_eq_iff scan_properties_def)

lemma emits_scan_properties:
  "emits v (\<lambda>i. category i \<in> set props_categories \<and> valid_severity (severity i)) (scan_properties P)"
  unfolding scan_properties_as_comp
  by (intro emits_comp' emits_print emits_fold emits_props_body)

lemma emitted_scan_properties:
  "emitted v (scan_properties P) =
     concat (map (\<lambda>(rel, found). case found of None \<Rightarrow> [] | Some f \<Rightarrow> emitted v (scan_properties_file rel f))
       (props_paths P))"
proof -
  let ?Q = "\<lambda>i. category i \<in> set props_categories \<and> valid_severity (severity i)"
  let ?body = "\<lambda>(rel, found) s. case found of None \<Rightarrow> s | Some f \<Rightarrow> scan_properties_file rel f s"
  have "emitted v (scan_properties P) =
      emitted v (print_line ScanningProperties) @ emitted v (fold ?body (props_paths P))"
    unfolding scan_properties_as_comp
    by (rule emitted_comp' [where Q = ?Q]) (intro emits_print emits_fold emits_props_body)+
  also have "emitted v (fold ?body (props_paths P)) =
      concat (map (\<lambda>x. emitted v (?body x)) (props_paths P))"
    by (rule emitted_fold [where Q = ?Q]) (rule emits_props_body)
  finally show ?thesis by (simp add: emitted_print emitted_props_body cong: map_cong)
qed

lemma scan_flyway_migrations_eq:
  assumes "spring_modulith_version s = v"
  shows "scan_flyway_migrations P s =
     s\<lparr>issues := issues s @ flyway_issues v P,
       stdout := stdout s @
         (ScanningFlyway # (case migration_dir P of None \<Rightarrow> [NoFlywayMigrations] | Some d \<Rightarrow> []))\<rparr>"
  using assms
  by (simp add: scan_flyway_migrations_def flyway_issues_def print_line_def add_issue_def Let_def
        missing_root_issue_def missing_schema_issue_def filter_empty_conv
      split: option.split)

lemma emits_scan_flyway_migrations:
  "emits v (\<lambda>i. i \<in> {missing_root_issue, missing_schema_issue}) (scan_flyway_migrations P)"
  unfolding emits_def
  by (intro exI conjI allI impI, rule_tac [2] scan_flyway_migrations_eq)
     (auto simp add: flyway_issues_def split: option.splits if_splits)

lemma emitted_scan_flyway_migrations:
  "emitted v (scan_flyway_migrations P) = flyway_issues v P"
  unfolding emitted_def
  by (subst scan_flyway_migrations_eq [where v = v]) (simp_all add: initial_def)

section \<open>The scan as a sequence of emitters\<close>

lemma extract_versions_fields:
  "spring_boot_version (extract_versions content s) =
     (case re_search_version ''<spring-boot.version>'' content of
        None \<Rightarrow> spring_boot_version s | Some v \<Rightarrow> v)"
  "spring_modulith_version (extract_versions content s) =
     (case re_search_version ''<spring-modulith.version>'' content of
        None \<Rightarrow> spring_modulith_version s | Some v \<Rightarrow> v)"
  "testcontainers_version (extract_versions content s) =
     (case re_search_version ''<testcontainers.version>'' content of
        None \<Rightarrow> testcontainers_version s | Some v \<Rightarrow> v)"
  "issues (extract_versions content s) = issues s"
  by (simp_all add: extract_versions_def Let_def split: option.split)

lemma print_line_fields [simp]:
  "versions_of (print_line x s) = versions_of s"
  "issues (print_line x s) = issues s"
  "spring_boot_version (print_line x s) = spring_boot_version s"
  "spring_modulith_version (print_line x s) = spring_modulith_version s"
  "testcontainers_version (print_line x s) = testcontainers_version s"
  by (simp_all add: print_line_def versions_of_def)

lemma print_versions_fields [simp]:
  "versions_of (print_versions s) = versions_of s"
  "issues (print_versions s) = issues s"
  "spring_boot_version (print_versions s) = spring_boot_version s"
  "spring_modulith_version (print_versions s) = spring_modulith_version s"
  "testcontainers_version (print_versions s) = testcontainers_version s"
  by (simp_all add: print_versions_def)

lemma emits_pom_checks:
  "emits v (\<lambda>i. file_path i = path \<and> category i \<in> set pom_categories \<and> valid_severity (severity i))
     (pom_checks path content)"
  unfolding pom_checks_def
  apply (intro emits_comp')
  apply (rule emits_mono [OF emits_check_old_starters], simp add: pom_categories_def)
  apply (rule emits_mono [OF emits_check_spring_security_test], simp add: pom_categories_def)
  apply (rule emits_mono [OF emits_check_testcontainers_artifacts], simp add: pom_categories_def)
  done

lemma scan_pom_Text:
  "scan_pom path (Text content) s =
     Inr (pom_checks path content (print_versions (extract_versions content (print_line ScanningPom s))))"
  by (simp add: scan_pom_def pom_checks_def)

text \<open>The state in which the build-descriptor stage leaves the run.\<close>

lemma pom_stage:
  assumes "pom_xml P \<noteq> Some Unreadable"
  obtains s1 where
    "scan P = Inr (scan_flyway_migrations P (scan_properties P (scan_java_files P s1)))"
    "versions_of s1 = pom_versions P" "issues s1 = pom_issues P"
proof (cases "pom_xml P")
  case None
  let ?s1 = "print_line PomNotFound (print_line Rule80 (print_line (ScanningProject (project_path P)) initial))"
  show thesis
  proof (rule that [of ?s1])
    show "scan P = Inr (scan_flyway_migrations P (scan_properties P (scan_java_files P ?s1)))"
      using None by (simp add: scan_def)
    show "versions_of ?s1 = pom_versions P"
      using None by (simp add: pom_versions_def versions_of_def initial_def)
    show "issues ?s1 = pom_issues P"
      using None by (simp add: pom_issues_def initial_def)
  qed
next
  case (Some f)
  with assms obtain content where f: "f = Text content" by (cases f) auto
  let ?s0 = "print_line Rule80 (print_line (ScanningProject (project_path P)) initial)"
  let ?s' = "print_versions (extract_versions content (print_line ScanningPom ?s0))"
  let ?s1 = "pom_checks (pom_path P) content ?s'"
  let ?v = "detected ''<spring-modulith.version>'' content"
  have vs: "versions_of ?s' = pom_versions P"
    using Some f
    by (simp add: pom_versions_def versions_of_def extract_versions_fields detected_def initial_def
          split: option.split)
  then have v: "spring_modulith_version ?s' = ?v"
    using Some f by (simp add: pom_versions_def versions_of_def)
  have no_issues: "issues ?s' = []"
    by (simp add: extract_versions_fields initial_def)
  show thesis
  proof (rule that [of ?s1])
    show "scan P = Inr (scan_flyway_migrations P (scan_properties P (scan_java_files P ?s1)))"
      using Some f by (simp add: scan_def scan_pom_Text)
    show "versions_of ?s1 = pom_versions P"
      using emitsD(2) [OF emits_pom_checks v] vs by simp
    show "issues ?s1 = pom_issues P"
      using emitsD(1) [OF emits_pom_checks v] no_issues Some f by (simp add: pom_issues_def)
  qed
qed

lemma scan_Unreadable: "pom_xml P = Some Unreadable \<Longrightarrow> scan P = Inl ReadError"
  by (simp add: scan_def scan_pom_def)

lemma scan_returns: "pom_xml P \<noteq> Some Unreadable \<Longrightarrow> \<exists>r. scan P = Inr r"
  by (erule pom_stage) simp

lemma scan_Inr_iff: "(\<exists>r. scan P = Inr r) \<longleftrightarrow> pom_xml P \<noteq> Some Unreadable"
  using scan_returns [of P] scan_Unreadable [of P] by auto

lemma scan_result:
  assumes "scan P = Inr r"
  shows "versions_of r = pom_versions P"
    and "issues r = pom_issues P @ emitted (spring_modulith_version r) (scan_java_files P) @
           emitted (spring_modulith_version r) (scan_properties P) @
           flyway_issues (spring_modulith_version r) P"
proof -
  from assms have "pom_xml P \<noteq> Some Unreadable" using scan_Unreadable [of P] by auto
  then obtain s1 where s1:
    "scan P = Inr (scan_flyway_migrations P (scan_properties P (scan_java_files P s1)))"
    "versions_of s1 = pom_versions P" "issues s1 = pom_issues P"
    by (rule pom_stage)
  define v where "v = spring_modulith_version s1"
  let ?s2 = "scan_java_files P s1"
  let ?s3 = "scan_properties P ?s2"
  have v1: "spring_modulith_version s1 = v" by (simp add: v_def)
  note j = emitsD(1,2) [OF emits_scan_java_files v1]
  have v2: "spring_modulith_version ?s2 = v" using j(2) v1 by (simp add: versions_of_def)
  note p = emitsD(1,2) [OF emits_scan_properties v2]
  have v3: "spring_modulith_version ?s3 = v" using p(2) v2 by (simp add: versions_of_def)
  note f = emitsD(1,2) [OF emits_scan_flyway_migrations v3]
  have r: "r = scan_flyway_migrations P ?s3" using assms s1(1) by simp
  show vr: "versions_of r = pom_versions P" using r f(2) p(2) j(2) s1(2) by simp
  have "spring_modulith_version r = v" using r f(2) v3 by (simp add: versions_of_def)
  then show "issues r = pom_issues P @ emitted (spring_modulith_version r) (scan_java_files P) @
           emitted (spring_modulith_version r) (scan_properties P) @
           flyway_issues (spring_modulith_version r) P"
    using r f(1) p(1) j(1) s1(3) by (simp add: emitted_scan_flyway_migrations)
qed

section \<open>Migration-directory check (C1)\<close>

text \<open>
  C1, as stated: with a detected modularity-framework version, a missing migration root
  directory yields exactly one CRITICAL issue. The scanner returns before any check when
  the migration root is missing: for a project that declares the version 2.0.0 and has no
  migration root, the whole scan reports nothing.
\<close>

theorem C1_missing_root_counterexample:
  "migration_dir demo = None \<and>
   scan_versions demo = Inr (''Unknown'', ''2.0.0'', ''Unknown'') \<and>
   scan_issues demo = Inr []"
  by code_simp

text \<open>
  C1, amended: with a detected modularity-framework version the migration-directory scanner
  appends nothing when the migration root does not exist; exactly one CRITICAL file-level
  issue about the missing \<open>__root\<close> directory when the root exists without it; exactly one
  CRITICAL file-level issue about the missing schema migration when \<open>__root\<close> exists and no
  entry matches \<open>V0__*events*.sql\<close>; and nothing when an entry matches.
\<close>

theorem C1_flyway_outcomes:
  assumes "spring_modulith_version s \<noteq> ''Unknown''"
  shows "issues (scan_flyway_migrations P s) = issues s @
     (case migration_dir P of
        None \<Rightarrow> []
      | Some None \<Rightarrow>
          [\<lparr>category = ''Spring Modulith 2.0 - Database'', severity = ''CRITICAL'',
            file_path = ''src/main/resources/db/migration/'', line_number = 0,
            issue = ''Missing __root directory for events schema migration'',
            suggestion = ''Create: __root/V0__create_events_schema.sql''\<rparr>]
      | Some (Some entries) \<Rightarrow>
          (if \<exists>n \<in> set entries. fnmatch ''V0__*events*.sql'' n then []
           else [\<lparr>category = ''Spring Modulith 2.0 - Database'', severity = ''CRITICAL'',
                  file_path = ''src/main/resources/db/migration/__root/'', line_number = 0,
                  issue = ''Missing events schema migration'',
                  suggestion = ''Create: V0__create_events_schema.sql with '' @ [CHR 0x27] @
                               ''CREATE SCHEMA events;'' @ [CHR 0x27]\<rparr>]))"
proof -
  have "issues (scan_flyway_migrations P s) =
      issues s @ flyway_issues (spring_modulith_version s) P"
    by (subst scan_flyway_migrations_eq [OF refl]) simp
  then show ?thesis
    using assms
    by (simp add: flyway_issues_def missing_root_issue_def missing_schema_issue_def
          split: option.split)
qed

theorem C1_flyway_outcomes_witness:
  "spring_modulith_version (initial\<lparr>spring_modulith_version := ''2.0.0''\<rparr>) \<noteq> ''Unknown'' \<and>
   issues (scan_flyway_migrations (demo\<lparr>migration_dir := Some (Some [''V1__init.sql''])\<rparr>)
            (initial\<lparr>spring_modulith_version := ''2.0.0''\<rparr>)) =
     [\<lparr>category = ''Spring Modulith 2.0 - Database'', severity = ''CRITICAL'',
       file_path = ''src/main/resources/db/migration/__root/'', line_number = 0,
       issue = ''Missing events schema migration'',
       suggestion = ''Create: V0__create_events_schema.sql with '' @ [CHR 0x27] @
                    ''CREATE SCHEMA events;'' @ [CHR 0x27]\<rparr>]"
proof -
  have v: "spring_modulith_version (initial\<lparr>spring_modulith_version := ''2.0.0''\<rparr>) \<noteq> ''Unknown''"
    by simp
  show ?thesis
    using v C1_flyway_outcomes [OF v, of "demo\<lparr>migration_dir := Some (Some [''V1__init.sql''])\<rparr>"]
    by (simp add: initial_def)
qed

section \<open>Read failures (C4)\<close>

text \<open>
  C4: no exception escapes the scan, also when the build descriptor cannot be read. The
  readers of source and configuration files catch a failing read, report it and go on: a
  source file that cannot be read is skipped and the next one is scanned. The reader of the
  build descriptor has no handler, and the scan of a project whose \<open>pom.xml\<close> exists but
  cannot be read ends with the exception.
\<close>

theorem C4_unreadable_pom_escapes:
  "scan (demo\<lparr>pom_xml := Some Unreadable\<rparr>) = Inl ReadError \<and>
   map_sum id stdout
     (scan (demo\<lparr>java_files := [(''A.java'', Unreadable),
                                    (''B.java'', Text ''@SpyBean Bar bar;'')]\<rparr>)) =
     Inr [ScanningProject ''demo'', Rule80, ScanningPom, ShowSpringBoot ''Unknown'',
          ShowSpringModulith ''2.0.0'', ShowTestcontainers ''Unknown'', ScanningJava,
          FoundJavaFiles 2, ErrorReading ''A.java'', ScanningProperties, ScanningFlyway,
          NoFlywayMigrations] \<and>
   scan_issues (demo\<lparr>java_files := [(''A.java'', Unreadable),
                                       (''B.java'', Text ''@SpyBean Bar bar;'')]\<rparr>) =
     Inr [\<lparr>category = ''Spring Boot 4 - Test Annotations'', severity = ''CRITICAL'',
            file_path = ''B.java'', line_number = 1,
            issue = ''Old test annotation: @SpyBean'',
            suggestion = ''Change to: @MockitoSpyBean''\<rparr>]"
proof (intro conjI)
  show "scan (demo\<lparr>pom_xml := Some Unreadable\<rparr>) = Inl ReadError"
    by (simp add: scan_Unreadable)
  show "map_sum id stdout
     (scan (demo\<lparr>java_files := [(''A.java'', Unreadable),
                                    (''B.java'', Text ''@SpyBean Bar bar;'')]\<rparr>)) =
     Inr [ScanningProject ''demo'', Rule80, ScanningPom, ShowSpringBoot ''Unknown'',
          ShowSpringModulith ''2.0.0'', ShowTestcontainers ''Unknown'', ScanningJava,
          FoundJavaFiles 2, ErrorReading ''A.java'', ScanningProperties, ScanningFlyway,
          NoFlywayMigrations]"
    by code_simp
  show "scan_issues (demo\<lparr>java_files := [(''A.java'', Unreadable),
                                       (''B.java'', Text ''@SpyBean Bar bar;'')]\<rparr>) =
     Inr [\<lparr>category = ''Spring Boot 4 - Test Annotations'', severity = ''CRITICAL'',
            file_path = ''B.java'', line_number = 1,
            issue = ''Old test annotation: @SpyBean'',
            suggestion = ''Change to: @MockitoSpyBean''\<rparr>]"
    by code_simp
qed

section \<open>Version fields (C8)\<close>

text \<open>
  C8: the three version fields are written at most once, on detection in the build
  descriptor, and never overwritten later. The extraction step assigns a field only when
  its pattern is found; the dependency checks that follow, the source scanner, the
  configuration scanner and the migration scanner leave all three fields as they are; so
  after a scan each field holds the value detected in the build descriptor, or the
  sentinel.
\<close>

theorem C8_versions_write_once:
  "versions_of (extract_versions content s) =
     ((case re_search_version ''<spring-boot.version>'' content of
         None \<Rightarrow> spring_boot_version s | Some v \<Rightarrow> v),
      (case re_search_version ''<spring-modulith.version>'' content of
         None \<Rightarrow> spring_modulith_version s | Some v \<Rightarrow> v),
      (case re_search_version ''<testcontainers.version>'' content of
         None \<Rightarrow> testcontainers_version s | Some v \<Rightarrow> v)) \<and>
   versions_of (pom_checks path content t) = versions_of t \<and>
   versions_of (scan_java_files P t) = versions_of t \<and>
   versions_of (scan_properties P t) = versions_of t \<and>
   versions_of (scan_flyway_migrations P t) = versions_of t \<and>
   (scan P = Inr r \<longrightarrow>
      versions_of r =
        (case pom_xml P of
           Some (Text text) \<Rightarrow>
             (detected ''<spring-boot.version>'' text,
              detected ''<spring-modulith.version>'' text,
              detected ''<testcontainers.version>'' text)
         | _ \<Rightarrow> (''Unknown'', ''Unknown'', ''Unknown'')))"
proof (intro conjI impI)
  show "versions_of (extract_versions content s) =
     ((case re_search_version ''<spring-boot.version>'' content of
         None \<Rightarrow> spring_boot_version s | Some v \<Rightarrow> v),
      (case re_search_version ''<spring-modulith.version>'' content of
         None \<Rightarrow> spring_modulith_version s | Some v \<Rightarrow> v),
      (case re_search_version ''<testcontainers.version>'' content of
         None \<Rightarrow> testcontainers_version s | Some v \<Rightarrow> v))"
    by (simp add: versions_of_def extract_versions_fields)
  show "versions_of (pom_checks path content t) = versions_of t"
    by (rule emitsD(2) [OF emits_pom_checks refl])
  show "versions_of (scan_java_files P t) = versions_of t"
    by (rule emitsD(2) [OF emits_scan_java_files refl])
  show "versions_of (scan_properties P t) = versions_of t"
    by (rule emitsD(2) [OF emits_scan_properties refl])
  show "versions_of (scan_flyway_migrations P t) = versions_of t"
    by (rule emitsD(2) [OF emits_scan_flyway_migrations refl])
next
  assume "scan P = Inr r"
  then have "versions_of r = pom_versions P" by (rule scan_result(1))
  then show "versions_of r =
        (case pom_xml P of
           Some (Text text) \<Rightarrow>
             (detected ''<spring-boot.version>'' text,
              detected ''<spring-modulith.version>'' text,
              detected ''<testcontainers.version>'' text)
         | _ \<Rightarrow> (''Unknown'', ''Unknown'', ''Unknown''))"
    by (simp add: pom_versions_def)
qed

theorem C8_versions_write_once_witness:
  "scan_versions demo = Inr (''Unknown'', ''2.0.0'', ''Unknown'')"
proof -
  have "pom_xml demo \<noteq> Some Unreadable" by (simp add: demo_def)
  then obtain r where r: "scan demo = Inr r" using scan_returns by blast
  have "versions_of r =
      (case pom_xml demo of
         Some (Text text) \<Rightarrow>
           (detected ''<spring-boot.version>'' text,
            detected ''<spring-modulith.version>'' text,
            detected ''<testcontainers.version>'' text)
       | _ \<Rightarrow> (''Unknown'', ''Unknown'', ''Unknown''))"
    by (rule C8_versions_write_once [where P = demo and r = r,
          THEN conjunct2, THEN conjunct2, THEN conjunct2, THEN conjunct2, THEN conjunct2,
          THEN mp, OF r])
  also have "\<dots> = (''Unknown'', ''2.0.0'', ''Unknown'')"
    by code_simp
  finally have "versions_of r = (''Unknown'', ''2.0.0'', ''Unknown'')" .
  then show ?thesis using r by (simp add: scan_versions_def)
qed

section \<open>Event-store configuration check (C2)\<close>

lemma concat_readlines: "concat (readlines t) = t"
  by (induction t) (auto split: list.split)

lemma filter_none:
  assumes "\<forall>i \<in> set xs. Q i" "\<And>i. Q i \<Longrightarrow> \<not> R i"
  shows "filter R xs = []"
  using assms by (induction xs) auto

lemma emitted_all:
  assumes "emits v Q f"
  shows "\<forall>i \<in> set (emitted v f). Q i"
proof -
  have "spring_modulith_version (initial\<lparr>spring_modulith_version := v\<rparr>) = v" by simp
  from emitsD(3) [OF assms this] show ?thesis .
qed

lemma pom_issues_props:
  "\<forall>i \<in> set (pom_issues P).
     file_path i = pom_path P \<and> category i \<in> set pom_categories \<and> valid_severity (severity i)"
proof (cases "pom_xml P")
  case None
  then show ?thesis by (simp add: pom_issues_def)
next
  case (Some f)
  show ?thesis
  proof (cases f)
    case Unreadable
    then show ?thesis using Some by (simp add: pom_issues_def)
  next
    case (Text content)
    then show ?thesis
      using Some emitted_all [OF emits_pom_checks, of _ "pom_path P" content]
      by (simp add: pom_issues_def)
  qed
qed

lemma flyway_issues_props:
  "\<forall>i \<in> set (flyway_issues v P). i \<in> {missing_root_issue, missing_schema_issue}"
  by (auto simp add: flyway_issues_def split: option.splits if_splits)

lemma config_filter_pom:
  "filter (\<lambda>i. category i = ''Spring Modulith 2.0 - Configuration'') (pom_issues P) = []"
  by (rule filter_none [OF pom_issues_props]) (auto simp add: pom_categories_def)

lemma config_filter_java:
  "filter (\<lambda>i. category i = ''Spring Modulith 2.0 - Configuration'')
     (emitted v (scan_java_files P)) = []"
  by (rule filter_none [OF emitted_all [OF emits_scan_java_files]])
     (auto simp add: java_categories_def)

lemma config_filter_flyway:
  "filter (\<lambda>i. category i = ''Spring Modulith 2.0 - Configuration'') (flyway_issues v P) = []"
  by (rule filter_none [OF flyway_issues_props])
     (auto simp add: missing_root_issue_def missing_schema_issue_def)

lemma config_filter_jackson:
  "filter (\<lambda>i. category i = ''Spring Modulith 2.0 - Configuration'')
     (emitted v (check_jackson_props rel lines)) = []"
  by (rule filter_none [OF emitted_all [OF emits_check_jackson_props]]) auto

lemma config_filter_props_file:
  "filter (\<lambda>i. category i = ''Spring Modulith 2.0 - Configuration'')
     (case found of None \<Rightarrow> [] | Some f \<Rightarrow> emitted v (scan_properties_file rel f)) =
   (case found of
      Some (Text t) \<Rightarrow>
        (if v \<noteq> ''Unknown'' \<and> \<not> contains ''spring.modulith.events.jdbc.schema'' t
         then [modulith_config_issue rel] else [])
    | _ \<Rightarrow> [])"
  by (simp add: emitted_scan_properties_file config_filter_jackson concat_readlines
        modulith_config_issue_def
      split: option.split file_content.split)

text \<open>
  C2, as stated: with a detected modularity-framework version and the key missing, exactly
  one CRITICAL file-level issue is produced in total. The check runs once for each of the
  two configuration files that is present: a project that declares the version and has
  both files, neither with the key, gets two such issues.
\<close>

theorem C2_two_config_files_counterexample:
  "scan_issues (demo\<lparr>application_properties := Some (Text ''server.port=8080''),
                      application_yml := Some (Text ''server:'')\<rparr>) =
     Inr [\<lparr>category = ''Spring Modulith 2.0 - Configuration'', severity = ''CRITICAL'',
            file_path = ''src/main/resources/application.properties'', line_number = 0,
            issue = ''Missing Spring Modulith event store configuration'',
            suggestion = ''Add: spring.modulith.events.jdbc.schema=events''\<rparr>,
          \<lparr>category = ''Spring Modulith 2.0 - Configuration'', severity = ''CRITICAL'',
            file_path = ''src/main/resources/application.yml'', line_number = 0,
            issue = ''Missing Spring Modulith event store configuration'',
            suggestion = ''Add: spring.modulith.events.jdbc.schema=events''\<rparr>]"
  by code_simp

text \<open>
  C2, amended: after a scan, the issues of the event-store configuration check are, when a
  modularity-framework version was detected, exactly one CRITICAL issue with line number 0
  for each of the two configuration files that is present, readable and lacks the key
  \<open>spring.modulith.events.jdbc.schema\<close>, in the order properties file, YAML file; and none
  at all when no version was detected.
\<close>

theorem C2_event_store_issues:
  assumes "scan P = Inr r"
  shows "filter (\<lambda>i. category i = ''Spring Modulith 2.0 - Configuration'') (issues r) =
     (if spring_modulith_version r = ''Unknown'' then []
      else concat (map (\<lambda>(rel, found).
             case found of
               Some (Text t) \<Rightarrow>
                 (if contains ''spring.modulith.events.jdbc.schema'' t then []
                  else [\<lparr>category = ''Spring Modulith 2.0 - Configuration'',
                         severity = ''CRITICAL'', file_path = rel, line_number = 0,
                         issue = ''Missing Spring Modulith event store configuration'',
                         suggestion = ''Add: spring.modulith.events.jdbc.schema=events''\<rparr>])
             | _ \<Rightarrow> [])
           [(''src/main/resources/application.properties'', application_properties P),
            (''src/main/resources/application.yml'', application_yml P)]))"
proof -
  let ?v = "spring_modulith_version r"
  let ?C = "\<lambda>i. category i = ''Spring Modulith 2.0 - Configuration''"
  have "filter ?C (issues r) = filter ?C (emitted ?v (scan_properties P))"
    by (simp add: scan_result(2) [OF assms] config_filter_pom config_filter_java
          config_filter_flyway)
  also have "\<dots> =
      filter ?C (case application_properties P of None \<Rightarrow> []
         | Some f \<Rightarrow> emitted ?v (scan_properties_file ''src/main/resources/application.properties'' f)) @
      filter ?C (case application_yml P of None \<Rightarrow> []
         | Some f \<Rightarrow> emitted ?v (scan_properties_file ''src/main/resources/application.yml'' f))"
    by (simp add: emitted_scan_properties props_paths_def)
  finally show ?thesis
    by (simp add: config_filter_props_file modulith_config_issue_def
          split: option.split file_content.split)
qed

theorem C2_event_store_issues_witness:
  "map_sum id (filter (\<lambda>i. category i = ''Spring Modulith 2.0 - Configuration''))
     (scan_issues (demo\<lparr>application_properties := Some (Text ''server.port=8080'')\<rparr>)) =
     Inr [\<lparr>category = ''Spring Modulith 2.0 - Configuration'', severity = ''CRITICAL'',
            file_path = ''src/main/resources/application.properties'', line_number = 0,
            issue = ''Missing Spring Modulith event store configuration'',
            suggestion = ''Add: spring.modulith.events.jdbc.schema=events''\<rparr>]"
proof -
  let ?P = "demo\<lparr>application_properties := Some (Text ''server.port=8080'')\<rparr>"
  have "pom_xml ?P \<noteq> Some Unreadable" by (simp add: demo_def)
  then obtain r where r: "scan ?P = Inr r" using scan_returns by blast
  have "versions_of r = pom_versions ?P" by (rule scan_result(1) [OF r])
  also have "\<dots> = (''Unknown'', ''2.0.0'', ''Unknown'')" by code_simp
  finally have v: "spring_modulith_version r = ''2.0.0''" by (simp add: versions_of_def)
  have "filter (\<lambda>i. category i = ''Spring Modulith 2.0 - Configuration'') (issues r) =
      [\<lparr>category = ''Spring Modulith 2.0 - Configuration'', severity = ''CRITICAL'',
            file_path = ''src/main/resources/application.properties'', line_number = 0,
            issue = ''Missing Spring Modulith event store configuration'',
            suggestion = ''Add: spring.modulith.events.jdbc.schema=events''\<rparr>]"
    using C2_event_store_issues [OF r] v by (simp add: demo_def)
  then show ?thesis using r by (simp add: scan_issues_def)
qed

section \<open>Context window of the dependency checks (C3)\<close>

lemma slice_as_lines:
  assumes "0 \<le> a" "b \<le> int (length xs)"
  shows "slice xs a b = map (\<lambda>j. xs ! nat (j - 1)) [a + 1 .. b]"
proof (rule nth_equalityI)
  show len: "length (slice xs a b) = length (map (\<lambda>j. xs ! nat (j - 1)) [a + 1 .. b])"
    using assms by (auto simp add: slice_def)
  fix k assume "k < length (slice xs a b)"
  then have k: "int k < b - a" using assms by (auto simp add: slice_def)
  then have "[a + 1 .. b] ! k = a + 1 + int k" by (intro nth_upto) simp
  moreover have "nat (a + 1 + int k - 1) = nat a + k" using assms(1) by simp
  moreover have "slice xs a b ! k = xs ! (nat a + k)"
    using k assms by (simp add: slice_def)
  ultimately show "slice xs a b ! k = map (\<lambda>j. xs ! nat (j - 1)) [a + 1 .. b] ! k"
    using k by simp
qed

lemma context_window_lines:
  assumes "1 \<le> i" "i \<le> int (length lines)"
  shows "context_window lines i = lines_around 2 2 lines i"
proof -
  have "max 0 (i - 3) + 1 = max 1 (i - 2)" by simp
  then show ?thesis
    unfolding context_window_def lines_around_def
    by (subst slice_as_lines) simp_all
qed

lemma enumerate_from_range:
  "(i, x) \<in> set (enumerate_from n xs) \<Longrightarrow> n \<le> i \<and> i < n + int (length xs) \<and> x = xs ! nat (i - n)"
proof (induction xs arbitrary: n)
  case Nil
  then show ?case by simp
next
  case (Cons y ys)
  show ?case
  proof (cases "(i, x) = (n, y)")
    case True
    then show ?thesis by simp
  next
    case False
    with Cons.prems have "(i, x) \<in> set (enumerate_from (n + 1) ys)" by auto
    from Cons.IH [OF this] have "n + 1 \<le> i" "i < n + 1 + int (length ys)" "x = ys ! nat (i - (n + 1))"
      by simp_all
    moreover from \<open>n + 1 \<le> i\<close> have "nat (i - n) = Suc (nat (i - (n + 1)))" by simp
    ultimately show ?thesis by simp
  qed
qed

lemma fold_issues:
  assumes "\<And>x s. x \<in> set xs \<Longrightarrow> issues (body x s) = issues s @ g x"
  shows "issues (fold body xs s) = issues s @ concat (map g xs)"
  using assms by (induction xs arbitrary: s) simp_all

text \<open>
  C3, as stated: the context tested around line \<open>i\<close> runs from 3 lines before it through
  2 lines after it. The slice of the source starts at index \<open>i - 3\<close> of the 0-based list
  while \<open>i\<close> counts from 1, so it starts 2 lines before line \<open>i\<close>: with the group identifier
  on line 1 and the artifact on line 4 the tested context is lines 2 to 4, not lines 1 to
  4, and no issue is reported.
\<close>

theorem C3_three_lines_before_counterexample:
  "context_window
     [''<groupId>org.springframework.security</groupId>'', [], [],
      ''<artifactId>spring-security-test</artifactId>''] 4 \<noteq>
   lines_around 3 2
     [''<groupId>org.springframework.security</groupId>'', [], [],
      ''<artifactId>spring-security-test</artifactId>''] 4 \<and>
   issues (check_spring_security_test ''demo/pom.xml''
     [''<groupId>org.springframework.security</groupId>'', [], [],
      ''<artifactId>spring-security-test</artifactId>''] initial) = []"
  by code_simp

text \<open>
  C3, amended: for every line \<open>i\<close> (counted from 1) of the build descriptor, the context
  string is the join of the 2 lines before line \<open>i\<close> through the 2 lines after it, cut at
  the ends of the file; the spring-security-test check reports line \<open>i\<close> exactly when the line
  holds the artifact and that context holds the group identifier, and the Testcontainers
  check uses the same window for each of its bare artifact names.
\<close>

theorem C3_context_window:
  "(1 \<le> i \<and> i \<le> int (length lines) \<longrightarrow> context_window lines i = lines_around 2 2 lines i) \<and>
   issues (check_spring_security_test path lines s) = issues s @
     concat (map (\<lambda>(i, line).
        if contains ''<artifactId>spring-security-test</artifactId>'' line \<and>
           contains ''<groupId>org.springframework.security</groupId>'' (lines_around 2 2 lines i)
        then [\<lparr>category = ''Spring Boot 4 - Dependencies'', severity = ''CRITICAL'',
               file_path = path, line_number = i,
               issue = ''Old spring-security-test dependency'',
               suggestion = ''Change to: spring-boot-starter-security-test''\<rparr>]
        else []) (enumerate_from 1 lines)) \<and>
   issues (check_testcontainers_artifacts path lines s) = issues s @
     concat (map (\<lambda>(i, line). concat (map (\<lambda>artifact.
        if contains (''<artifactId>'' @ artifact @ ''</artifactId>'') line \<and>
           contains ''<groupId>org.testcontainers</groupId>'' (lines_around 2 2 lines i)
        then [\<lparr>category = ''Testcontainers 2.x - Dependencies'', severity = ''WARNING'',
               file_path = path, line_number = i,
               issue = ''Old Testcontainers artifact: '' @ artifact,
               suggestion = ''Change to: testcontainers-'' @ artifact\<rparr>]
        else []) tc_old_artifacts)) (enumerate_from 1 lines))"
proof (intro conjI impI)
  assume "1 \<le> i \<and> i \<le> int (length lines)"
  then show "context_window lines i = lines_around 2 2 lines i"
    by (simp add: context_window_lines)
next
  have w: "context_window lines j = lines_around 2 2 lines j"
    if "(j, l) \<in> set (enumerate_from 1 lines)" for j l
    using enumerate_from_range [OF that] by (intro context_window_lines) simp_all
  show "issues (check_spring_security_test path lines s) = issues s @
     concat (map (\<lambda>(i, line).
        if contains ''<artifactId>spring-security-test</artifactId>'' line \<and>
           contains ''<groupId>org.springframework.security</groupId>'' (lines_around 2 2 lines i)
        then [\<lparr>category = ''Spring Boot 4 - Dependencies'', severity = ''CRITICAL'',
               file_path = path, line_number = i,
               issue = ''Old spring-security-test dependency'',
               suggestion = ''Change to: spring-boot-starter-security-test''\<rparr>]
        else []) (enumerate_from 1 lines))"
    unfolding check_spring_security_test_def
    by (rule fold_issues) (auto simp add: w)
next
  have w: "context_window lines j = lines_around 2 2 lines j"
    if "(j, l) \<in> set (enumerate_from 1 lines)" for j l
    using enumerate_from_range [OF that] by (intro context_window_lines) simp_all
  show "issues (check_testcontainers_artifacts path lines s) = issues s @
     concat (map (\<lambda>(i, line). concat (map (\<lambda>artifact.
        if contains (''<artifactId>'' @ artifact @ ''</artifactId>'') line \<and>
           contains ''<groupId>org.testcontainers</groupId>'' (lines_around 2 2 lines i)
        then [\<lparr>category = ''Testcontainers 2.x - Dependencies'', severity = ''WARNING'',
               file_path = path, line_number = i,
               issue = ''Old Testcontainers artifact: '' @ artifact,
               suggestion = ''Change to: testcontainers-'' @ artifact\<rparr>]
        else []) tc_old_artifacts)) (enumerate_from 1 lines))"
    unfolding check_testcontainers_artifacts_def
  proof (rule fold_issues, goal_cases)
    case (1 x t)
    obtain j l where x: "x = (j, l)" by (cases x)
    have "issues (fold (\<lambda>artifact s.
        if contains (''<artifactId>'' @ artifact @ ''</artifactId>'') l
        then (if contains ''<groupId>org.testcontainers</groupId>'' (context_window lines j)
              then add_issue ''Testcontainers 2.x - Dependencies'' ''WARNING'' path j
                     (''Old Testcontainers artifact: '' @ artifact)
                     (''Change to: testcontainers-'' @ artifact) s
              else s)
        else s) tc_old_artifacts t) = issues t @
      concat (map (\<lambda>artifact.
        if contains (''<artifactId>'' @ artifact @ ''</artifactId>'') l \<and>
           contains ''<groupId>org.testcontainers</groupId>'' (lines_around 2 2 lines j)
        then [\<lparr>category = ''Testcontainers 2.x - Dependencies'', severity = ''WARNING'',
               file_path = path, line_number = j,
               issue = ''Old Testcontainers artifact: '' @ artifact,
               suggestion = ''Change to: testcontainers-'' @ artifact\<rparr>]
        else []) tc_old_artifacts)"
      using w [of j l] 1 x by (intro fold_issues) auto
    then show ?case using x by simp
  qed
qed

theorem C3_context_window_witness:
  "(1::int) \<le> 4 \<and> (4::int) \<le> int (length [''a'', ''b'', ''c'', ''d'', ''e'', ''f'', ''g'']) \<and>
   context_window [''a'', ''b'', ''c'', ''d'', ''e'', ''f'', ''g''] 4 =
     [CHR ''b'', newline, CHR ''c'', newline, CHR ''d'', newline, CHR ''e'', newline, CHR ''f'']"
proof -
  have h: "(1::int) \<le> 4 \<and> (4::int) \<le> int (length [''a'', ''b'', ''c'', ''d'', ''e'', ''f'', ''g''])"
    by simp
  have "lines_around 2 2 [''a'', ''b'', ''c'', ''d'', ''e'', ''f'', ''g''] 4 =
     [CHR ''b'', newline, CHR ''c'', newline, CHR ''d'', newline, CHR ''e'', newline, CHR ''f'']"
    by code_simp
  with C3_context_window [THEN conjunct1, THEN mp, OF h] h show ?thesis by simp
qed

section \<open>Deprecated test annotations (C6)\<close>

lemma filter_line_enumerate_later:
  assumes "\<And>i x. \<forall>y \<in> set (g i x). line_number y = i" "n < m"
  shows "filter (\<lambda>y. R y \<and> line_number y = n)
           (concat (map (\<lambda>(i, x). g i x) (enumerate_from m xs))) = []"
  using assms(2)
proof (induction xs arbitrary: m)
  case Nil
  then show ?case by simp
next
  case (Cons x xs)
  have "filter (\<lambda>y. R y \<and> line_number y = n) (g m x) = []"
    using assms(1) [of m x] Cons.prems by (auto simp add: filter_empty_conv)
  moreover have "filter (\<lambda>y. R y \<and> line_number y = n)
           (concat (map (\<lambda>(i, x). g i x) (enumerate_from (m + 1) xs))) = []"
    using Cons.prems by (intro Cons.IH) simp
  ultimately show ?case by simp
qed

lemma filter_line_enumerate:
  assumes "\<And>i x. \<forall>y \<in> set (g i x). R y \<and> line_number y = i"
    and "m \<le> n" "n < m + int (length xs)"
  shows "filter (\<lambda>y. R y \<and> line_number y = n)
           (concat (map (\<lambda>(i, x). g i x) (enumerate_from m xs))) = g n (xs ! nat (n - m))"
  using assms(2,3)
proof (induction xs arbitrary: m)
  case Nil
  then show ?case by simp
next
  case (Cons x xs)
  have ln: "\<And>i x. \<forall>y \<in> set (g i x). line_number y = i" using assms(1) by blast
  show ?case
  proof (cases "n = m")
    case True
    have "filter (\<lambda>y. R y \<and> line_number y = n) (g m x) = g m x"
      using assms(1) [of m x] True by (auto simp add: filter_id_conv)
    moreover have "filter (\<lambda>y. R y \<and> line_number y = n)
           (concat (map (\<lambda>(i, x). g i x) (enumerate_from (m + 1) xs))) = []"
      using True by (intro filter_line_enumerate_later ln) simp
    ultimately show ?thesis using True by simp
  next
    case False
    then have lt: "m + 1 \<le> n" using Cons.prems by simp
    have "filter (\<lambda>y. R y \<and> line_number y = n) (g m x) = []"
      using assms(1) [of m x] False by (auto simp add: filter_empty_conv)
    moreover have "filter (\<lambda>y. R y \<and> line_number y = n)
           (concat (map (\<lambda>(i, x). g i x) (enumerate_from (m + 1) xs))) =
        g n (xs ! nat (n - (m + 1)))"
      using lt Cons.prems by (intro Cons.IH) simp_all
    moreover have "nat (n - m) = Suc (nat (n - (m + 1)))" using lt by simp
    ultimately show ?thesis by simp
  qed
qed

lemma check_test_annotations_issues:
  "issues (check_test_annotations rel lines s) = issues s @
     concat (map (\<lambda>(i, line).
        (if contains ''@MockBean'' line \<and> \<not> is_line_comment line
         then [\<lparr>category = ''Spring Boot 4 - Test Annotations'', severity = ''CRITICAL'',
                file_path = rel, line_number = i,
                issue = ''Old test annotation: @MockBean'',
                suggestion = ''Change to: @MockitoBean''\<rparr>]
         else []) @
        (if contains ''@SpyBean'' line \<and> \<not> is_line_comment line
         then [\<lparr>category = ''Spring Boot 4 - Test Annotations'', severity = ''CRITICAL'',
                file_path = rel, line_number = i,
                issue = ''Old test annotation: @SpyBean'',
                suggestion = ''Change to: @MockitoSpyBean''\<rparr>]
         else [])) (enumerate_from 1 lines))"
  unfolding check_test_annotations_def
  by (rule fold_issues) (auto simp add: test_annotation_patterns_def)

lemma emits_other_java_checks:
  "emits v (\<lambda>i. category i \<noteq> ''Spring Boot 4 - Test Annotations'') (other_java_checks rel t)"
  unfolding other_java_checks_def
  apply (intro emits_comp')
  apply (rule emits_mono [OF emits_check_old_imports], simp)
  apply (rule emits_mono [OF emits_check_tc_old_imports], simp)
  apply (rule emits_mono [OF emits_check_localstack_service], simp)
  apply (rule emits_mono [OF emits_check_resilience], simp)
  apply (rule emits_mono [OF emits_check_retryable], simp)
  apply (rule emits_mono [OF emits_check_jackson2], simp)
  apply (rule emits_mono [OF emits_check_generic_types], simp)
  apply (rule emits_mono [OF emits_check_endpoint_override], simp)
  done

lemma scan_java_file_split:
  "issues (scan_java_file rel (Text t) s) =
     issues (check_test_annotations rel (readlines t) s) @
     emitted (spring_modulith_version s) (other_java_checks rel t)"
proof -
  have v: "spring_modulith_version (check_test_annotations rel (readlines t) s) =
      spring_modulith_version s"
  proof -
    have "emits (spring_modulith_version s)
        (\<lambda>i. file_path i = rel \<and> category i = ''Spring Boot 4 - Test Annotations'' \<and>
             severity i = ''CRITICAL'')
        (check_test_annotations rel (readlines t))"
      by (rule emits_check_test_annotations)
    from emitsD(2) [OF this refl] show ?thesis by (simp add: versions_of_def)
  qed
  have "scan_java_file rel (Text t) s =
      other_java_checks rel t (check_test_annotations rel (readlines t) s)"
    by (simp add: java_checks_as_comp other_java_checks_def)
  then show ?thesis
    using emitsD(1) [OF emits_other_java_checks v] by simp
qed

text \<open>
  C6, as stated: a line with \<open>@MockBean\<close> that is not a line comment gets exactly one CRITICAL
  issue of the test-annotation category. The check runs once per deprecated annotation, so
  a line that also holds \<open>@SpyBean\<close> gets two issues of that category, both for line 1 here.
\<close>

theorem C6_two_annotations_counterexample:
  "issues (scan_java_file ''A.java'' (Text ''@MockBean @SpyBean Foo foo;'') initial) =
     [\<lparr>category = ''Spring Boot 4 - Test Annotations'', severity = ''CRITICAL'',
        file_path = ''A.java'', line_number = 1,
        issue = ''Old test annotation: @MockBean'',
        suggestion = ''Change to: @MockitoBean''\<rparr>,
      \<lparr>category = ''Spring Boot 4 - Test Annotations'', severity = ''CRITICAL'',
        file_path = ''A.java'', line_number = 1,
        issue = ''Old test annotation: @SpyBean'',
        suggestion = ''Change to: @MockitoSpyBean''\<rparr>]"
  by code_simp

text \<open>
  C6, amended: among the issues a source file adds, those of the test-annotation category
  that refer to line \<open>n\<close> are: none when the trimmed line starts with \<open>//\<close>; otherwise exactly
  one CRITICAL issue for \<open>@MockBean\<close> when the line contains it, followed by exactly one for
  \<open>@SpyBean\<close> when the line contains that.
\<close>

theorem C6_test_annotation_issues:
  assumes "issues (scan_java_file rel (Text text) s) = issues s @ new"
    and "1 \<le> n" "n \<le> int (length (readlines text))"
  shows "filter (\<lambda>i. category i = ''Spring Boot 4 - Test Annotations'' \<and> line_number i = n) new =
     (if prefix ''//'' (strip (readlines text ! nat (n - 1))) then []
      else
        (if contains ''@MockBean'' (readlines text ! nat (n - 1))
         then [\<lparr>category = ''Spring Boot 4 - Test Annotations'', severity = ''CRITICAL'',
                file_path = rel, line_number = n,
                issue = ''Old test annotation: @MockBean'',
                suggestion = ''Change to: @MockitoBean''\<rparr>]
         else []) @
        (if contains ''@SpyBean'' (readlines text ! nat (n - 1))
         then [\<lparr>category = ''Spring Boot 4 - Test Annotations'', severity = ''CRITICAL'',
                file_path = rel, line_number = n,
                issue = ''Old test annotation: @SpyBean'',
                suggestion = ''Change to: @MockitoSpyBean''\<rparr>]
         else []))"
proof -
  let ?R = "\<lambda>i. category i = ''Spring Boot 4 - Test Annotations''"
  let ?g = "\<lambda>i line.
        (if contains ''@MockBean'' line \<and> \<not> is_line_comment line
         then [\<lparr>category = ''Spring Boot 4 - Test Annotations'', severity = ''CRITICAL'',
                file_path = rel, line_number = i,
                issue = ''Old test annotation: @MockBean'',
                suggestion = ''Change to: @MockitoBean''\<rparr>]
         else []) @
        (if contains ''@SpyBean'' line \<and> \<not> is_line_comment line
         then [\<lparr>category = ''Spring Boot 4 - Test Annotations'', severity = ''CRITICAL'',
                file_path = rel, line_number = i,
                issue = ''Old test annotation: @SpyBean'',
                suggestion = ''Change to: @MockitoSpyBean''\<rparr>]
         else [])"
  let ?others = "emitted (spring_modulith_version s) (other_java_checks rel text)"
  have new: "new = concat (map (\<lambda>(i, line). ?g i line) (enumerate_from 1 (readlines text))) @ ?others"
    using assms(1) by (simp add: scan_java_file_split check_test_annotations_issues)
  have others: "filter (\<lambda>i. ?R i \<and> line_number i = n) ?others = []"
    by (rule filter_none [OF emitted_all [OF emits_other_java_checks]]) simp
  have "filter (\<lambda>i. ?R i \<and> line_number i = n)
          (concat (map (\<lambda>(i, line). ?g i line) (enumerate_from 1 (readlines text)))) =
        ?g n (readlines text ! nat (n - 1))"
    using assms(2,3) by (intro filter_line_enumerate) auto
  then show ?thesis
    by (simp add: new others is_line_comment_def)
qed

theorem C6_test_annotation_issues_witness:
  "issues (scan_java_file ''A.java'' (Text ''@MockBean Foo foo;'') initial) =
     issues initial @
     [\<lparr>category = ''Spring Boot 4 - Test Annotations'', severity = ''CRITICAL'',
        file_path = ''A.java'', line_number = 1,
        issue = ''Old test annotation: @MockBean'',
        suggestion = ''Change to: @MockitoBean''\<rparr>] \<and>
   (1::int) \<le> 1 \<and> (1::int) \<le> int (length (readlines ''@MockBean Foo foo;'')) \<and>
   filter (\<lambda>i. category i = ''Spring Boot 4 - Test Annotations'' \<and> line_number i = 1)
     [\<lparr>category = ''Spring Boot 4 - Test Annotations'', severity = ''CRITICAL'',
        file_path = ''A.java'', line_number = 1,
        issue = ''Old test annotation: @MockBean'',
        suggestion = ''Change to: @MockitoBean''\<rparr>] =
     (if prefix ''//'' (strip (readlines ''@MockBean Foo foo;'' ! nat (1 - 1))) then []
      else
        (if contains ''@MockBean'' (readlines ''@MockBean Foo foo;'' ! nat (1 - 1))
         then [\<lparr>category = ''Spring Boot 4 - Test Annotations'', severity = ''CRITICAL'',
                file_path = ''A.java'', line_number = 1,
                issue = ''Old test annotation: @MockBean'',
                suggestion = ''Change to: @MockitoBean''\<rparr>]
         else []) @
        (if contains ''@SpyBean'' (readlines ''@MockBean Foo foo;'' ! nat (1 - 1))
         then [\<lparr>category = ''Spring Boot 4 - Test Annotations'', severity = ''CRITICAL'',
                file_path = ''A.java'', line_number = 1,
                issue = ''Old test annotation: @SpyBean'',
                suggestion = ''Change to: @MockitoSpyBean''\<rparr>]
         else []))"
proof -
  have h1: "issues (scan_java_file ''A.java'' (Text ''@MockBean Foo foo;'') initial) =
     issues initial @
     [\<lparr>category = ''Spring Boot 4 - Test Annotations'', severity = ''CRITICAL'',
        file_path = ''A.java'', line_number = 1,
        issue = ''Old test annotation: @MockBean'',
        suggestion = ''Change to: @MockitoBean''\<rparr>]"
    by code_simp
  have h2: "(1::int) \<le> 1" by simp
  have h3: "(1::int) \<le> int (length (readlines ''@MockBean Foo foo;''))" by code_simp
  from h1 h2 h3 C6_test_annotation_issues [OF h1 h2 h3] show ?thesis by blast
qed

section \<open>Version detection (C5, C10)\<close>

lemma tag_before_version_iff:
  "tag_before_version tag s k \<longleftrightarrow>
     prefix tag (drop k s) \<and> takeWhile is_version_char (drop (k + length tag) s) \<noteq> []"
proof (cases "k + length tag < length s")
  case True
  then have "drop (k + length tag) s = s ! (k + length tag) # drop (Suc (k + length tag)) s"
    by (simp add: Cons_nth_drop_Suc)
  then show ?thesis using True by (simp add: tag_before_version_def)
next
  case False
  then show ?thesis by (simp add: tag_before_version_def)
qed

lemma tag_before_version_Cons:
  "tag_before_version tag (c # cs) (Suc k) = tag_before_version tag cs k"
  by (simp add: tag_before_version_def)

lemma search_head:
  "re_search_version tag (c # cs) =
     (if tag_before_version tag (c # cs) 0
      then Some (takeWhile is_version_char (drop (length tag) (c # cs)))
      else re_search_version tag cs)"
  by (simp add: tag_before_version_iff)

lemma search_skip:
  assumes "\<forall>k < length pre. \<not> tag_before_version tag (pre @ s) k"
  shows "re_search_version tag (pre @ s) = re_search_version tag s"
  using assms
proof (induction pre)
  case Nil
  show ?case by simp
next
  case (Cons p ps)
  have "\<not> tag_before_version tag (p # ps @ s) 0" using Cons.prems by auto
  moreover have "\<forall>k < length ps. \<not> tag_before_version tag (ps @ s) k"
  proof (intro allI impI)
    fix k assume "k < length ps"
    then have "\<not> tag_before_version tag ((p # ps) @ s) (Suc k)" using Cons.prems by auto
    then show "\<not> tag_before_version tag (ps @ s) k" by (simp add: tag_before_version_Cons)
  qed
  ultimately show ?case using Cons.IH by (simp add: search_head del: re_search_version.simps)
qed

lemma search_at_head:
  assumes "v \<noteq> []" "\<forall>c \<in> set v. is_version_char c" "rest = [] \<or> \<not> is_version_char (hd rest)"
  shows "re_search_version tag (tag @ v @ rest) = Some v"
proof -
  have run: "takeWhile is_version_char (v @ rest) = v"
    using assms(2,3) by (cases rest) (simp_all add: takeWhile_append2)
  obtain c cs where s: "tag @ v @ rest = c # cs"
    using assms(1) by (cases "tag @ v @ rest") auto
  have "prefix tag (c # cs)" using s [symmetric] by simp
  moreover have "takeWhile is_version_char (drop (length tag) (c # cs)) = v"
    using s [symmetric] run by simp
  ultimately have "re_search_version tag (c # cs) = Some v" using assms(1) by simp
  then show ?thesis by (simp add: s)
qed

lemma search_first_match:
  assumes "\<forall>k < length pre. \<not> tag_before_version tag (pre @ tag @ v @ rest) k"
    and "v \<noteq> []" "\<forall>c \<in> set v. is_version_char c" "rest = [] \<or> \<not> is_version_char (hd rest)"
  shows "re_search_version tag (pre @ tag @ v @ rest) = Some v"
  using search_skip [OF assms(1)] search_at_head [OF assms(2,3,4), of tag] by simp

lemma search_none:
  assumes "\<forall>k. \<not> tag_before_version tag s k"
  shows "re_search_version tag s = None"
  using assms
proof (induction s)
  case Nil
  show ?case by simp
next
  case (Cons c cs)
  have "\<forall>k. \<not> tag_before_version tag cs k"
  proof
    fix k
    have "\<not> tag_before_version tag (c # cs) (Suc k)" using Cons.prems by blast
    then show "\<not> tag_before_version tag cs k" by (simp add: tag_before_version_Cons)
  qed
  then have "re_search_version tag cs = None" by (rule Cons.IH)
  moreover have "\<not> tag_before_version tag (c # cs) 0" using Cons.prems by blast
  ultimately show ?case by (simp add: search_head del: re_search_version.simps)
qed

lemma search_none_conv:
  assumes "re_search_version tag s = None"
  shows "\<not> tag_before_version tag s k"
  using assms
proof (induction s arbitrary: k)
  case Nil
  show ?case by (simp add: tag_before_version_def)
next
  case (Cons c cs)
  from Cons.prems have h: "\<not> tag_before_version tag (c # cs) 0" and t: "re_search_version tag cs = None"
    by (simp_all add: search_head del: re_search_version.simps split: if_splits)
  show ?case
  proof (cases k)
    case 0
    then show ?thesis using h by simp
  next
    case (Suc j)
    then show ?thesis using Cons.IH [OF t, of j] by (simp add: tag_before_version_Cons)
  qed
qed

lemma search_absent: "\<not> contains tag s \<Longrightarrow> re_search_version tag s = None"
  by (induction s) auto

lemma search_gives_version:
  assumes "re_search_version tag s = Some v"
  shows "v \<noteq> [] \<and> (\<forall>c \<in> set v. is_version_char c)"
  using assms
proof (induction s)
  case Nil
  then show ?case by simp
next
  case (Cons c cs)
  then show ?case by (auto split: if_splits dest: set_takeWhileD)
qed

lemma detected_sentinel:
  "detected tag s = ''Unknown'' \<longleftrightarrow> re_search_version tag s = None"
proof (cases "re_search_version tag s")
  case None
  then show ?thesis by (simp add: detected_def)
next
  case (Some v)
  have "\<not> is_version_char CHR ''U''" by (simp add: is_version_char_def)
  moreover from search_gives_version [OF Some] have "\<forall>c \<in> set v. is_version_char c" by simp
  ultimately have "CHR ''U'' \<notin> set v" by blast
  then have "v \<noteq> ''Unknown''" by auto
  then show ?thesis using Some by (simp add: detected_def)
qed

lemma no_match_before:
  "(\<forall>k < n. \<not> tag_before_version tag s k) \<longleftrightarrow>
     list_all (\<lambda>k. \<not> tag_before_version tag s k) [0..<n]"
  by (auto simp add: list_all_iff)

lemma no_match_anywhere:
  "(\<forall>k. \<not> tag_before_version tag s k) \<longleftrightarrow>
     list_all (\<lambda>k. \<not> tag_before_version tag s k) [0..<length s]"
  by (auto simp add: list_all_iff tag_before_version_def)

lemma field_detected:
  assumes "scan P = Inr r" "(tag, field) \<in> set version_fields"
  shows "field r = (case pom_xml P of Some (Text content) \<Rightarrow> detected tag content | _ \<Rightarrow> ''Unknown'')"
  using scan_result(1) [OF assms(1)] assms(2)
  by (auto simp add: version_fields_def versions_of_def pom_versions_def
      split: option.splits file_content.splits)

text \<open>
  C5, as stated: whenever the build descriptor contains the tag with the value 1.2.3, the
  field is 1.2.3. The search stops at the first place where the tag stands before a digit
  or a dot and takes the longest run of digits and dots there: a descriptor that holds the
  tag with 3.5.0 and then with 1.2.3 contains the tag with 1.2.3 and leaves 3.5.0 in the
  field, and a descriptor with the value 1.2.34 contains the text of the tag with 1.2.3 and
  leaves 1.2.34 in the field.
\<close>

theorem C5_first_tag_wins_counterexample:
  "contains ''<spring-boot.version>1.2.3''
     (''<spring-boot.version>3.5.0</spring-boot.version>'' @ [newline] @
      ''<spring-boot.version>1.2.3</spring-boot.version>'') \<and>
   scan_versions (demo\<lparr>pom_xml := Some (Text
     (''<spring-boot.version>3.5.0</spring-boot.version>'' @ [newline] @
      ''<spring-boot.version>1.2.3</spring-boot.version>''))\<rparr>) =
     Inr (''3.5.0'', ''Unknown'', ''Unknown'') \<and>
   contains ''<spring-boot.version>1.2.3'' ''<spring-boot.version>1.2.34</spring-boot.version>'' \<and>
   scan_versions (demo\<lparr>pom_xml := Some (Text
     ''<spring-boot.version>1.2.34</spring-boot.version>'')\<rparr>) =
     Inr (''1.2.34'', ''Unknown'', ''Unknown'')"
  by code_simp

text \<open>
  C5, amended: for each of the three version tags, when the build descriptor holds the tag
  followed by a version string \<open>v\<close> of digits and dots that ends there (the text goes on
  with another character, or ends), and at no earlier place the tag stands directly before
  a digit or a dot (earlier occurrences of the tag followed by anything else do not count),
  the field equals \<open>v\<close> after the scan; when the build descriptor does not contain the tag,
  or does not exist, the field equals the sentinel \<open>Unknown\<close>.
\<close>

theorem C5_version_fields:
  assumes "scan P = Inr r" "(tag, field) \<in> set version_fields"
  shows "(\<forall>pre v rest.
            pom_xml P = Some (Text (pre @ tag @ v @ rest)) \<and>
            (\<forall>k < length pre. \<not> tag_before_version tag (pre @ tag @ v @ rest) k) \<and>
            v \<noteq> [] \<and> (\<forall>c \<in> set v. is_version_char c) \<and>
            (rest = [] \<or> \<not> is_version_char (hd rest))
            \<longrightarrow> field r = v) \<and>
         ((\<forall>content. pom_xml P = Some (Text content) \<longrightarrow> \<not> contains tag content)
            \<longrightarrow> field r = ''Unknown'')"
proof (intro conjI allI impI)
  fix pre v rest
  assume h: "pom_xml P = Some (Text (pre @ tag @ v @ rest)) \<and>
            (\<forall>k < length pre. \<not> tag_before_version tag (pre @ tag @ v @ rest) k) \<and>
            v \<noteq> [] \<and> (\<forall>c \<in> set v. is_version_char c) \<and>
            (rest = [] \<or> \<not> is_version_char (hd rest))"
  then have "re_search_version tag (pre @ tag @ v @ rest) = Some v"
    by (intro search_first_match) simp_all
  then show "field r = v"
    using field_detected [OF assms] h by (simp add: detected_def)
next
  assume h: "\<forall>content. pom_xml P = Some (Text content) \<longrightarrow> \<not> contains tag content"
  show "field r = ''Unknown''"
  proof (cases "pom_xml P")
    case None
    then show ?thesis using field_detected [OF assms] by simp
  next
    case (Some f)
    show ?thesis
    proof (cases f)
      case Unreadable
      then show ?thesis using Some field_detected [OF assms] by simp
    next
      case (Text content)
      with Some h have "re_search_version tag content = None" by (intro search_absent) simp
      then show ?thesis using Some Text field_detected [OF assms] by (simp add: detected_def)
    qed
  qed
qed

theorem C5_version_fields_witness:
  "scan_versions (demo\<lparr>pom_xml := Some (Text
      (''<spring-boot.version>${revision}</spring-boot.version>'' @ ''<spring-boot.version>'' @
       ''1.2.3'' @ ''</spring-boot.version>''))\<rparr>) =
     Inr (''1.2.3'', ''Unknown'', ''Unknown'')"
proof -
  let ?pre = "''<spring-boot.version>${revision}</spring-boot.version>''"
  let ?c = "?pre @ ''<spring-boot.version>'' @ ''1.2.3'' @ ''</spring-boot.version>''"
  let ?P = "demo\<lparr>pom_xml := Some (Text ?c)\<rparr>"
  have "pom_xml ?P \<noteq> Some Unreadable" by (simp add: demo_def)
  then obtain r where r: "scan ?P = Inr r" using scan_returns by blast
  have b: "(''<spring-boot.version>'', spring_boot_version) \<in> set version_fields"
    and m: "(''<spring-modulith.version>'', spring_modulith_version) \<in> set version_fields"
    and t: "(''<testcontainers.version>'', testcontainers_version) \<in> set version_fields"
    by (simp_all add: version_fields_def)
  have "list_all (\<lambda>k. \<not> tag_before_version ''<spring-boot.version>'' ?c k) [0..<length ?pre]"
    by code_simp
  then have nb: "\<forall>k < length ?pre. \<not> tag_before_version ''<spring-boot.version>'' ?c k"
    by (simp only: no_match_before)
  have vc: "\<forall>c \<in> set ''1.2.3''. is_version_char c" by (simp add: is_version_char_def)
  have nv: "\<not> is_version_char (hd ''</spring-boot.version>'')" by (simp add: is_version_char_def)
  have p: "pom_xml ?P = Some (Text ?c)" by simp
  have "spring_boot_version r = ''1.2.3''"
    by (rule C5_version_fields [OF r b, THEN conjunct1, rule_format,
          of ?pre "''1.2.3''" "''</spring-boot.version>''"])
       (use p nb vc nv in simp)
  moreover have nm: "\<not> contains ''<spring-modulith.version>'' ?c" by code_simp
  have "spring_modulith_version r = ''Unknown''"
    using C5_version_fields [OF r m, THEN conjunct2] nm by simp
  moreover have nt: "\<not> contains ''<testcontainers.version>'' ?c" by code_simp
  have "testcontainers_version r = ''Unknown''"
    using C5_version_fields [OF r t, THEN conjunct2] nt by simp
  ultimately show ?thesis using r by (simp add: scan_versions_def versions_of_def)
qed

text \<open>
  C10, as stated: a version value with a non-numeric suffix is stored as its leading run of
  digits and dots, and a tag whose value starts with another character leaves the field at
  \<open>Unknown\<close>. Both hold only for the place the search stops at, the first one where the tag
  stands before a digit or a dot: with \<open>${revision}\<close> in a first tag and 3.5.0 in a second
  the field is 3.5.0, not \<open>Unknown\<close>, and with 3.5.0 in a first tag and 4.0.0-M1 in a second
  the field is 3.5.0, not 4.0.0.
\<close>

theorem C10_later_tag_counterexample:
  "contains ''<spring-boot.version>${revision}''
     (''<spring-boot.version>${revision}</spring-boot.version>'' @ [newline] @
      ''<spring-boot.version>3.5.0</spring-boot.version>'') \<and>
   scan_versions (demo\<lparr>pom_xml := Some (Text
     (''<spring-boot.version>${revision}</spring-boot.version>'' @ [newline] @
      ''<spring-boot.version>3.5.0</spring-boot.version>''))\<rparr>) =
     Inr (''3.5.0'', ''Unknown'', ''Unknown'') \<and>
   contains ''<spring-boot.version>4.0.0-M1''
     (''<spring-boot.version>3.5.0</spring-boot.version>'' @ [newline] @
      ''<spring-boot.version>4.0.0-M1</spring-boot.version>'') \<and>
   scan_versions (demo\<lparr>pom_xml := Some (Text
     (''<spring-boot.version>3.5.0</spring-boot.version>'' @ [newline] @
      ''<spring-boot.version>4.0.0-M1</spring-boot.version>''))\<rparr>) =
     Inr (''3.5.0'', ''Unknown'', ''Unknown'')"
  by code_simp

text \<open>
  C10, amended: the version pattern takes digits and dots only, at the first place where
  the tag stands directly before a digit or a dot. When at that place the tag is followed
  by a run of digits and dots and then by another character, the field holds that run and
  the rest of the value is dropped. A tag whose value starts with any other character is
  passed over: the field is \<open>Unknown\<close> after the scan exactly when at no place of the build
  descriptor the tag stands directly before a digit or a dot.
\<close>

theorem C10_numeric_prefix:
  assumes "scan P = Inr r" "pom_xml P = Some (Text content)" "(tag, field) \<in> set version_fields"
  shows "(\<forall>pre run suffix.
            content = pre @ tag @ run @ suffix \<and>
            (\<forall>k < length pre. \<not> tag_before_version tag content k) \<and>
            run \<noteq> [] \<and> (\<forall>c \<in> set run. is_version_char c) \<and>
            suffix \<noteq> [] \<and> \<not> is_version_char (hd suffix)
            \<longrightarrow> field r = run) \<and>
         ((field r = ''Unknown'') = (\<forall>k. \<not> tag_before_version tag content k))"
proof (intro conjI allI impI)
  fix pre run suffix
  assume h: "content = pre @ tag @ run @ suffix \<and>
            (\<forall>k < length pre. \<not> tag_before_version tag content k) \<and>
            run \<noteq> [] \<and> (\<forall>c \<in> set run. is_version_char c) \<and>
            suffix \<noteq> [] \<and> \<not> is_version_char (hd suffix)"
  then have "\<forall>k < length pre. \<not> tag_before_version tag (pre @ tag @ run @ suffix) k"
    by blast
  with h have "re_search_version tag (pre @ tag @ run @ suffix) = Some run"
    by (intro search_first_match) simp_all
  then show "field r = run"
    using field_detected [OF assms(1,3)] assms(2) h by (simp add: detected_def)
next
  have f: "field r = detected tag content"
    using field_detected [OF assms(1,3)] assms(2) by simp
  show "(field r = ''Unknown'') = (\<forall>k. \<not> tag_before_version tag content k)"
    unfolding f detected_sentinel
    using search_none [of tag content] search_none_conv [of tag content] by blast
qed

theorem C10_numeric_prefix_witness:
  "scan_versions (demo\<lparr>pom_xml := Some (Text
      (''<spring-boot.version>${revision}</spring-boot.version>'' @ ''<spring-boot.version>'' @
       ''4.0.0'' @ ''-M1</spring-boot.version>''))\<rparr>) =
     Inr (''4.0.0'', ''Unknown'', ''Unknown'') \<and>
   scan_versions (demo\<lparr>pom_xml := Some (Text
      ''<spring-boot.version>${revision}</spring-boot.version>'')\<rparr>) =
     Inr (''Unknown'', ''Unknown'', ''Unknown'')"
proof
  let ?pre = "''<spring-boot.version>${revision}</spring-boot.version>''"
  let ?c = "?pre @ ''<spring-boot.version>'' @ ''4.0.0'' @ ''-M1</spring-boot.version>''"
  let ?P = "demo\<lparr>pom_xml := Some (Text ?c)\<rparr>"
  have "pom_xml ?P \<noteq> Some Unreadable" by (simp add: demo_def)
  then obtain r where r: "scan ?P = Inr r" using scan_returns by blast
  have p: "pom_xml ?P = Some (Text ?c)" by simp
  have b: "(''<spring-boot.version>'', spring_boot_version) \<in> set version_fields"
    by (simp add: version_fields_def)
  have "list_all (\<lambda>k. \<not> tag_before_version ''<spring-boot.version>'' ?c k) [0..<length ?pre]"
    by code_simp
  then have nb: "\<forall>k < length ?pre. \<not> tag_before_version ''<spring-boot.version>'' ?c k"
    by (simp only: no_match_before)
  have vc: "\<forall>c \<in> set ''4.0.0''. is_version_char c" by (simp add: is_version_char_def)
  have nv: "\<not> is_version_char (hd ''-M1</spring-boot.version>'')" by (simp add: is_version_char_def)
  have "spring_boot_version r = ''4.0.0''"
    by (rule C10_numeric_prefix [OF r p b, THEN conjunct1, rule_format,
          of ?pre "''4.0.0''" "''-M1</spring-boot.version>''"])
       (use nb vc nv in simp)
  moreover have "versions_of r = pom_versions ?P" by (rule scan_result(1) [OF r])
  moreover have "snd (pom_versions ?P) = (''Unknown'', ''Unknown'')" by code_simp
  ultimately show "scan_versions ?P = Inr (''4.0.0'', ''Unknown'', ''Unknown'')" using r
    by (cases "pom_versions ?P") (simp add: scan_versions_def versions_of_def)
next
  let ?c = "''<spring-boot.version>${revision}</spring-boot.version>''"
  let ?P = "demo\<lparr>pom_xml := Some (Text ?c)\<rparr>"
  have "pom_xml ?P \<noteq> Some Unreadable" by (simp add: demo_def)
  then obtain r where r: "scan ?P = Inr r" using scan_returns by blast
  have p: "pom_xml ?P = Some (Text ?c)" by simp
  have b: "(''<spring-boot.version>'', spring_boot_version) \<in> set version_fields"
    by (simp add: version_fields_def)
  have "list_all (\<lambda>k. \<not> tag_before_version ''<spring-boot.version>'' ?c k) [0..<length ?c]"
    by code_simp
  then have occ: "\<forall>k. \<not> tag_before_version ''<spring-boot.version>'' ?c k"
    by (simp only: no_match_anywhere)
  have "spring_boot_version r = ''Unknown''"
    using C10_numeric_prefix [OF r p b, THEN conjunct2] occ by blast
  moreover have "versions_of r = pom_versions ?P" by (rule scan_result(1) [OF r])
  moreover have "snd (pom_versions ?P) = (''Unknown'', ''Unknown'')" by code_simp
  ultimately show "scan_versions ?P = Inr (''Unknown'', ''Unknown'', ''Unknown'')" using r
    by (cases "pom_versions ?P") (simp add: scan_versions_def versions_of_def)
qed

section \<open>Independence of files (C9)\<close>








lemma always_mono: "emits_always Q f \<Longrightarrow> (\<And>i. Q i \<Longrightarrow> R i) \<Longrightarrow> emits_always R f"
  unfolding emits_always_def by blast






















section \<open>Report grouping (C7)\<close>

lemma count_severity_length:
  "count_severity sev xs = int (length (filter (\<lambda>i. severity i = sev) xs))"
proof -
  have "sum_list (map (\<lambda>i. 1) ys) = int (length ys)" for ys :: "issue list"
    by (induction ys) simp_all
  then show ?thesis by (simp add: count_severity_def)
qed

lemma map_of_dict_append:
  "map_of (dict_append k x d) k' =
     (if k' = k then Some ((case map_of d k of None \<Rightarrow> [] | Some v \<Rightarrow> v) @ [x]) else map_of d k')"
  by (induction d) auto

lemma keys_dict_append: "fst ` set (dict_append k x d) = insert k (fst ` set d)"
proof (induction d)
  case Nil
  show ?case by simp
next
  case (Cons e d)
  obtain k' v where e: "e = (k', v)" by (cases e)
  show ?case
  proof (cases "k' = k")
    case True
    then show ?thesis using e by simp
  next
    case False
    then show ?thesis using e Cons by (simp add: insert_commute)
  qed
qed

lemma distinct_dict_append:
  "distinct (map fst d) \<Longrightarrow> distinct (map fst (dict_append k x d))"
proof (induction d)
  case Nil
  then show ?case by simp
next
  case (Cons e d)
  obtain k' v where e: "e = (k', v)" by (cases e)
  show ?case using Cons e by (auto simp add: keys_dict_append)
qed

lemma grouping_fold:
  assumes "distinct (map fst d)"
    and "\<And>k. map_of d k =
           (if k \<in> group_key ` set ys then Some (filter (\<lambda>i. group_key i = k) ys) else None)"
  shows "distinct (map fst (fold (\<lambda>i d. dict_append (group_key i) i d) xs d)) \<and>
         (\<forall>k. map_of (fold (\<lambda>i d. dict_append (group_key i) i d) xs d) k =
           (if k \<in> group_key ` set (ys @ xs)
            then Some (filter (\<lambda>i. group_key i = k) (ys @ xs)) else None))"
  using assms
proof (induction xs arbitrary: d ys)
  case Nil
  then show ?case by simp
next
  case (Cons x xs)
  let ?d = "dict_append (group_key x) x d"
  have 1: "distinct (map fst ?d)" using Cons.prems(1) by (rule distinct_dict_append)
  have 2: "map_of ?d k =
      (if k \<in> group_key ` set (ys @ [x])
       then Some (filter (\<lambda>i. group_key i = k) (ys @ [x])) else None)" for k
    by (auto simp add: map_of_dict_append Cons.prems(2) filter_empty_conv empty_filter_conv
          image_iff)
  from Cons.IH [OF 1 2] show ?case by simp
qed

lemma issues_by_category_groups:
  "distinct (map fst (issues_by_category xs))"
  "map_of (issues_by_category xs) k =
     (if k \<in> group_key ` set xs then Some (filter (\<lambda>i. group_key i = k) xs) else None)"
  "set (map fst (issues_by_category xs)) = group_key ` set xs"
proof -
  have g: "distinct (map fst (issues_by_category xs)) \<and>
      (\<forall>k. map_of (issues_by_category xs) k =
           (if k \<in> group_key ` set ([] @ xs)
            then Some (filter (\<lambda>i. group_key i = k) ([] @ xs)) else None))"
    unfolding issues_by_category_def by (rule grouping_fold) simp_all
  then show d: "distinct (map fst (issues_by_category xs))" by simp
  from g show m: "map_of (issues_by_category xs) k =
     (if k \<in> group_key ` set xs then Some (filter (\<lambda>i. group_key i = k) xs) else None)"
    by simp
  have "dom (map_of (issues_by_category xs)) = group_key ` set xs"
    using g by (auto simp add: dom_def split: if_splits)
  then show "set (map fst (issues_by_category xs)) = group_key ` set xs"
    by (simp add: dom_map_of_conv_image_fst)
qed

lemma rsplit_pair_key:
  assumes "valid_severity (snd p)"
  shows "rsplit1 '' - '' (pair_key p) = [fst p, snd p]"
proof -
  have r: "rev (pair_key p) = rev (snd p) @ '' - '' @ rev (fst p)"
    by (simp add: pair_key_def)
  from assms consider "snd p = ''CRITICAL''" | "snd p = ''WARNING''" | "snd p = ''INFO''"
    by (auto simp add: valid_severity_def)
  then show ?thesis
  proof cases
    case 1
    then have "split_first '' - '' (rev (pair_key p)) = Some (''LACITIRC'', rev (fst p))"
      unfolding r by simp
    then show ?thesis using 1 by (simp add: rsplit1_def)
  next
    case 2
    then have "split_first '' - '' (rev (pair_key p)) = Some (''GNINRAW'', rev (fst p))"
      unfolding r by simp
    then show ?thesis using 2 by (simp add: rsplit1_def)
  next
    case 3
    then have "split_first '' - '' (rev (pair_key p)) = Some (''OFNI'', rev (fst p))"
      unfolding r by simp
    then show ?thesis using 3 by (simp add: rsplit1_def)
  qed
qed

lemma pair_key_inj:
  assumes "valid_severity (snd p)" "valid_severity (snd p')" "pair_key p = pair_key p'"
  shows "p = p'"
proof -
  have "[fst p, snd p] = [fst p', snd p']"
    using rsplit_pair_key [OF assms(1)] rsplit_pair_key [OF assms(2)] assms(3) by simp
  then show ?thesis by (simp add: prod_eq_iff)
qed

lemma group_key_pair: "group_key i = pair_key (pair_of i)"
  by (simp add: group_key_def pair_key_def pair_of_def)

lemma severity_icon_valid:
  "valid_severity sev \<Longrightarrow> severity_icon sev = Some (icon_of sev)"
  by (auto simp add: valid_severity_def severity_icon_def icon_of_def)

lemma same_key_same_pair:
  assumes "\<forall>i \<in> set xs. valid_severity (severity i)" "p \<in> pair_of ` set xs"
  shows "filter (\<lambda>i. group_key i = pair_key p) xs = filter (\<lambda>i. pair_of i = p) xs"
proof (rule filter_cong [OF refl])
  fix i assume i: "i \<in> set xs"
  from assms obtain j where j: "j \<in> set xs" "p = pair_of j" by auto
  have vi: "valid_severity (snd (pair_of i))" using assms(1) i by (simp add: pair_of_def)
  have vp: "valid_severity (snd p)" using assms(1) j by (simp add: pair_of_def)
  show "(group_key i = pair_key p) = (pair_of i = p)"
    using pair_key_inj [OF vi vp] by (auto simp add: group_key_pair)
qed

lemma print_group_section:
  assumes "\<forall>i \<in> set xs. valid_severity (severity i)" "p \<in> pair_of ` set xs"
  shows "print_group (issues_by_category xs) (pair_key p) = Inr (group_section xs p)"
proof -
  from assms obtain j where j: "j \<in> set xs" "p = pair_of j" by auto
  have vp: "valid_severity (snd p)" using assms(1) j by (simp add: pair_of_def)
  have "pair_key p \<in> group_key ` set xs" using j by (auto simp add: group_key_pair)
  then have "map_of (issues_by_category xs) (pair_key p) = Some (filter (\<lambda>i. pair_of i = p) xs)"
    by (simp add: issues_by_category_groups(2) same_key_same_pair [OF assms])
  then show ?thesis
    by (simp add: print_group_def rsplit_pair_key [OF vp] severity_icon_valid [OF vp]
          group_section_def)
qed

lemma print_groups_sections:
  assumes "\<forall>i \<in> set xs. valid_severity (severity i)" "set ps \<subseteq> pair_of ` set xs"
  shows "print_groups (issues_by_category xs) (map pair_key ps) =
         Inr (concat (map (group_section xs) ps))"
  using assms(2)
proof (induction ps)
  case Nil
  show ?case by simp
next
  case (Cons p ps)
  then have "p \<in> pair_of ` set xs" "set ps \<subseteq> pair_of ` set xs" by auto
  then show ?case using Cons.IH print_group_section [OF assms(1)] by simp
qed

lemma sorted_keys:
  assumes "\<forall>i \<in> set xs. valid_severity (severity i)"
  shows "sort (map fst (issues_by_category xs)) =
         map pair_key (sort_key pair_key (remdups (map pair_of xs)))"
proof (rule sorted_distinct_set_unique)
  let ?ps = "sort_key pair_key (remdups (map pair_of xs))"
  show "sorted (sort (map fst (issues_by_category xs)))" by simp
  show "distinct (sort (map fst (issues_by_category xs)))"
    by (simp add: issues_by_category_groups(1))
  show "sorted (map pair_key ?ps)" by (rule sorted_sort_key)
  have v: "valid_severity (snd p)" if "p \<in> set ?ps" for p
    using that assms by (auto simp add: pair_of_def)
  have "inj_on pair_key (set ?ps)"
    by (rule inj_onI) (rule pair_key_inj [OF v v])
  then show "distinct (map pair_key ?ps)" by (simp add: distinct_map)
  have "set (map pair_key ?ps) = group_key ` set xs"
    by (auto simp add: group_key_pair)
  then show "set (sort (map fst (issues_by_category xs))) = set (map pair_key ?ps)"
    using issues_by_category_groups(3) [of xs] by simp
qed

lemma print_report_by_pairs:
  assumes "xs \<noteq> []" "\<forall>i \<in> set xs. valid_severity (severity i)"
  shows "print_report xs = Inr (report_by_pairs xs)"
proof -
  have "set (sort_key pair_key (remdups (map pair_of xs))) \<subseteq> pair_of ` set xs" by simp
  from print_groups_sections [OF assms(2) this]
  have "print_groups (issues_by_category xs) (sort (map fst (issues_by_category xs))) =
      Inr (concat (map (group_section xs) (sort_key pair_key (remdups (map pair_of xs)))))"
    by (simp only: sorted_keys [OF assms(2)])
  then show ?thesis
    using assms(1) by (simp add: print_report_def Let_def report_by_pairs_def count_severity_length)
qed

lemma flyway_issues_valid: "\<forall>i \<in> set (flyway_issues v P). valid_severity (severity i)"
proof
  fix i assume "i \<in> set (flyway_issues v P)"
  with flyway_issues_props [of v P] have "i = missing_root_issue \<or> i = missing_schema_issue"
    by blast
  moreover have "valid_severity (severity missing_root_issue)"
    "valid_severity (severity missing_schema_issue)"
    by (simp_all add: missing_root_issue_def missing_schema_issue_def)
  ultimately show "valid_severity (severity i)" by blast
qed

lemma scan_issues_valid:
  assumes "scan P = Inr r"
  shows "\<forall>i \<in> set (issues r). valid_severity (severity i)"
proof -
  let ?v = "spring_modulith_version r"
  have a: "\<forall>i \<in> set (pom_issues P). valid_severity (severity i)"
    using pom_issues_props [of P] by blast
  have b: "\<forall>i \<in> set (emitted ?v (scan_java_files P)). valid_severity (severity i)"
    using emitted_all [OF emits_scan_java_files, of ?v P] by blast
  have c: "\<forall>i \<in> set (emitted ?v (scan_properties P)). valid_severity (severity i)"
    using emitted_all [OF emits_scan_properties, of ?v P] by blast
  have d: "\<forall>i \<in> set (flyway_issues ?v P). valid_severity (severity i)"
    by (rule flyway_issues_valid)
  have "set (issues r) = set (pom_issues P) \<union> set (emitted ?v (scan_java_files P)) \<union>
      set (emitted ?v (scan_properties P)) \<union> set (flyway_issues ?v P)"
    by (subst scan_result(2) [OF assms]) auto
  with a b c d show ?thesis by blast
qed

text \<open>
  C7: the summary counts of the rendered report are the numbers of issues of each
  severity; every issue is listed in exactly one section, the section of its own
  (category, severity) pair, whose header shows that category and the icon of that
  severity; and an empty issue list prints the all-clear line and no summary. The report
  the program prints is the report described that way (\<open>report_by_pairs\<close>) for every
  non-empty list of issues whose severities are CRITICAL, WARNING or INFO; the issues a
  scan accumulates are such a list, so this is the report of every scan that found
  something.
\<close>

theorem C7_report:
  "print_report [] = Inr [BlankLines, Rule80, ReportTitle, Rule80, AllClear] \<and>
   (xs \<noteq> [] \<and> (\<forall>i \<in> set xs. valid_severity (severity i)) \<longrightarrow>
      print_report xs = Inr (report_by_pairs xs)) \<and>
   distinct (sort_key pair_key (remdups (map pair_of xs))) \<and>
   (\<forall>i \<in> set xs. \<forall>p \<in> set (sort_key pair_key (remdups (map pair_of xs))).
      (i \<in> set (filter (\<lambda>j. pair_of j = p) xs)) = (p = pair_of i)) \<and>
   (scan P = Inr r \<longrightarrow> (\<forall>i \<in> set (issues r). valid_severity (severity i))) \<and>
   (scan P = Inr r \<and> issues r \<noteq> [] \<longrightarrow>
      print_report (issues r) = Inr (report_by_pairs (issues r)))"
proof (intro conjI impI)
  show "print_report [] = Inr [BlankLines, Rule80, ReportTitle, Rule80, AllClear]"
    by (simp add: print_report_def report_head_def)
  show "distinct (sort_key pair_key (remdups (map pair_of xs)))" by simp
  show "\<forall>i \<in> set xs. \<forall>p \<in> set (sort_key pair_key (remdups (map pair_of xs))).
      (i \<in> set (filter (\<lambda>j. pair_of j = p) xs)) = (p = pair_of i)"
    by auto
next
  assume "xs \<noteq> [] \<and> (\<forall>i \<in> set xs. valid_severity (severity i))"
  then show "print_report xs = Inr (report_by_pairs xs)"
    by (intro print_report_by_pairs) simp_all
next
  assume "scan P = Inr r"
  then show "\<forall>i \<in> set (issues r). valid_severity (severity i)"
    by (rule scan_issues_valid)
next
  assume "scan P = Inr r \<and> issues r \<noteq> []"
  then have "issues r \<noteq> []" "\<forall>i \<in> set (issues r). valid_severity (severity i)"
    using scan_issues_valid [of P r] by simp_all
  then show "print_report (issues r) = Inr (report_by_pairs (issues r))"
    by (rule print_report_by_pairs)
qed

theorem C7_report_witness:
  "print_report
     [\<lparr>category = ''Testcontainers 2.x - Dependencies'', severity = ''WARNING'',
        file_path = ''pom.xml'', line_number = 7, issue = ''a'', suggestion = ''b''\<rparr>,
      \<lparr>category = ''Spring Boot 4 - Dependencies'', severity = ''CRITICAL'',
        file_path = ''pom.xml'', line_number = 3, issue = ''c'', suggestion = ''d''\<rparr>,
      \<lparr>category = ''Spring Boot 4 - Dependencies'', severity = ''WARNING'',
        file_path = ''pom.xml'', line_number = 4, issue = ''e'', suggestion = ''f''\<rparr>,
      \<lparr>category = ''Testcontainers 2.x - Dependencies'', severity = ''WARNING'',
        file_path = ''pom.xml'', line_number = 9, issue = ''g'', suggestion = ''h''\<rparr>] =
   Inr [BlankLines, Rule80, ReportTitle, Rule80,
        SummaryHeader, CriticalCount 1, WarningCount 3, InfoCount 0, TotalCount 4,
        GroupHeader RedCircle ''Spring Boot 4 - Dependencies'' 1, Dashes80,
        IssueFile ''pom.xml'' 3, IssueText ''c'', IssueFix ''d'',
        GroupHeader YellowCircle ''Spring Boot 4 - Dependencies'' 1, Dashes80,
        IssueFile ''pom.xml'' 4, IssueText ''e'', IssueFix ''f'',
        GroupHeader YellowCircle ''Testcontainers 2.x - Dependencies'' 2, Dashes80,
        IssueFile ''pom.xml'' 7, IssueText ''a'', IssueFix ''b'',
        IssueFile ''pom.xml'' 9, IssueText ''g'', IssueFix ''h'',
        BlankThenRule80, NextStepsHeader, NextStep 1, NextStep 2, NextStep 3, NextStep 4,
        BlankThenRule80]"
proof -
  let ?xs = "[\<lparr>category = ''Testcontainers 2.x - Dependencies'', severity = ''WARNING'',
        file_path = ''pom.xml'', line_number = 7, issue = ''a'', suggestion = ''b''\<rparr>,
      \<lparr>category = ''Spring Boot 4 - Dependencies'', severity = ''CRITICAL'',
        file_path = ''pom.xml'', line_number = 3, issue = ''c'', suggestion = ''d''\<rparr>,
      \<lparr>category = ''Spring Boot 4 - Dependencies'', severity = ''WARNING'',
        file_path = ''pom.xml'', line_number = 4, issue = ''e'', suggestion = ''f''\<rparr>,
      \<lparr>category = ''Testcontainers 2.x - Dependencies'', severity = ''WARNING'',
        file_path = ''pom.xml'', line_number = 9, issue = ''g'', suggestion = ''h''\<rparr>]"
  have h: "?xs \<noteq> [] \<and> (\<forall>i \<in> set ?xs. valid_severity (severity i))" by simp
  have "print_report ?xs = Inr (report_by_pairs ?xs)"
    by (rule C7_report [THEN conjunct2, THEN conjunct1, THEN mp, OF h])
  also have "report_by_pairs ?xs =
       [BlankLines, Rule80, ReportTitle, Rule80,
        SummaryHeader, CriticalCount 1, WarningCount 3, InfoCount 0, TotalCount 4,
        GroupHeader RedCircle ''Spring Boot 4 - Dependencies'' 1, Dashes80,
        IssueFile ''pom.xml'' 3, IssueText ''c'', IssueFix ''d'',
        GroupHeader YellowCircle ''Spring Boot 4 - Dependencies'' 1, Dashes80,
        IssueFile ''pom.xml'' 4, IssueText ''e'', IssueFix ''f'',
        GroupHeader YellowCircle ''Testcontainers 2.x - Dependencies'' 2, Dashes80,
        IssueFile ''pom.xml'' 7, IssueText ''a'', IssueFix ''b'',
        IssueFile ''pom.xml'' 9, IssueText ''g'', IssueFix ''h'',
        BlankThenRule80, NextStepsHeader, NextStep 1, NextStep 2, NextStep 3, NextStep 4,
        BlankThenRule80]"
    by code_simp
  finally show ?thesis .
qed

end
